theory Spec2Isabelle
  imports Complex_Main "HOL-Library.Multiset"
begin

section \<open>Common data\<close>

text \<open>
  Node addresses are Python strings. Python and numpy floats are modelled as real numbers:
  rounding is not modelled, every arithmetic step is the exact one. Python integers are
  \<open>int\<close>. Every exception the modelled code can raise is a value of \<open>error\<close>
  (\<open>Raised\<close> is an exception of a collaborator); a function that mutates \<open>self\<close> returns
  the new state next to its result, also when it raises. The log output of the selector
  and of the model is not modelled; that of the aggregators is.
\<close>

type_synonym addr = string

datatype error = KeyError | ValueError | ZeroDivisionError | IndexError | AttributeError
  | NotImplementedError
  | Raised string

section \<open>selectors/priority_selector.py\<close>

text \<open>
  One entry of \<open>self.features\<close>: the telemetry dictionary of one neighbour, with the keys the
  selector reads.
\<close>

record feature_snapshot =
  loss :: real
  cpu_percent :: real
  data_size :: real
  bytes_received :: real
  bytes_sent :: real
  latency :: real
  availability :: real

text \<open>The attributes of a selector that \<open>node_selection\<close> reads and writes.\<close>

record selector =
  neighbors_list :: "addr list"
  features :: "addr \<rightharpoonup> feature_snapshot"
  ages :: "addr \<rightharpoonup> int"
  selected_nodes :: "addr list"

definition MIN_AMOUNT_OF_SELECTED_NEIGHBORS :: int where
  "MIN_AMOUNT_OF_SELECTED_NEIGHBORS = 1"

definition MAX_PERCENT_SELECTABLE_NEIGHBORS :: real where
  "MAX_PERCENT_SELECTABLE_NEIGHBORS = 0.8"

definition FEATURE_WEIGHTS :: "real list" where
  "FEATURE_WEIGHTS = [1.0, 1.0, 1.0, 0.5, 0.5, 10.0, 3.0]"

text \<open>
  The feature list the loop body builds for one neighbour whose age is \<open>age\<close>. The two
  divisions raise ZeroDivisionError on a zero denominator; a loss of \<open>-1\<close> becomes \<open>100\<close>.
\<close>

definition feature_list_of :: "feature_snapshot \<Rightarrow> int \<Rightarrow> error + real list" where
  "feature_list_of f age =
     (if cpu_percent f + 0.000001 = 0 \<or> latency f + 0.000001 = 0 then Inl ZeroDivisionError
      else
        let feature_list = [loss f,
                            1 / (cpu_percent f + 0.000001),
                            data_size f,
                            bytes_received f,
                            bytes_sent f,
                            1 / (latency f + 0.000001),
                            of_int age];
            feature_list = (if feature_list ! 0 = - 1 then feature_list[0 := 100]
                            else feature_list)
        in Inr feature_list)"

text \<open>
  The first loop over the neighbours. \<open>feature_array\<close> is the 7-row matrix, one row per
  feature; \<open>np.append(..., axis = 1)\<close> adds one column, that is one entry at the end of each
  row. A neighbour without an entry in \<open>self.features\<close> raises KeyError, after its age has
  been initialised.
\<close>

fun feature_loop ::
  "(addr \<rightharpoonup> feature_snapshot) \<Rightarrow> addr list \<Rightarrow> (addr \<rightharpoonup> int) \<Rightarrow> real list \<Rightarrow> real list list
     \<Rightarrow> (error + real list \<times> real list list) \<times> (addr \<rightharpoonup> int)" where
  "feature_loop fs [] ag avail feature_array = (Inr (avail, feature_array), ag)"
| "feature_loop fs (neighbor # rest) ag avail feature_array =
     (let ag1 = (case ag neighbor of None \<Rightarrow> ag(neighbor \<mapsto> 1) | Some _ \<Rightarrow> ag) in
      case fs neighbor of
        None \<Rightarrow> (Inl KeyError, ag1)
      | Some f \<Rightarrow>
          (case ag1 neighbor of
             None \<Rightarrow> (Inl KeyError, ag1)
           | Some age \<Rightarrow>
               (case feature_list_of f age of
                  Inl e \<Rightarrow> (Inl e, ag1)
                | Inr feature_list \<Rightarrow>
                    feature_loop fs rest ag1 (avail @ [availability f])
                      (map2 (\<lambda>row x. row @ [x]) feature_array feature_list))))"

text \<open>
  \<open>sklearn.preprocessing.normalize(X, axis = 1, norm = 'l1')\<close> on one row: the row divided by
  the sum of the absolute values of its entries. A norm below ten times the machine
  epsilon of float64 (\<open>2\<^sup>-\<^sup>5\<^sup>2\<close>) is replaced by 1 before the division, so a row with such a
  norm, the zero row among them, is left as it is.
\<close>

definition float_eps :: real where
  "float_eps = 1 / 2 ^ 52"

definition normalize_l1 :: "real list \<Rightarrow> real list" where
  "normalize_l1 row =
     (let norm = (\<Sum>x\<leftarrow>row. \<bar>x\<bar>);
          norm = (if norm < 10 * float_eps then 1 else norm)
      in map (\<lambda>x. x / norm) row)"

text \<open>\<open>np.sum(m, axis = 0)\<close> of a matrix with \<open>n\<close> columns.\<close>

definition column_sums :: "nat \<Rightarrow> real list list \<Rightarrow> real list" where
  "column_sums n m = map (\<lambda>j. \<Sum>row\<leftarrow>m. row ! j) [0..<n]"

definition scores_of :: "nat \<Rightarrow> real list list \<Rightarrow> real list" where
  "scores_of n feature_array =
     (let feature_array_normed = map normalize_l1 feature_array;
          feature_array_weighted =
            map2 (\<lambda>row w. map (\<lambda>x. x * w) row) feature_array_normed FEATURE_WEIGHTS
      in column_sums n feature_array_weighted)"

definition final_scores_of :: "nat \<Rightarrow> real list list \<Rightarrow> real list \<Rightarrow> real list" where
  "final_scores_of n feature_array avail = map2 (*) (scores_of n feature_array) avail"

text \<open>
  \<open>np.random.choice(a, size, replace = False, p = p)\<close>. The checks are numpy's: the
  probabilities must be non-negative and sum to 1 within \<open>sqrt(eps)\<close> of float64, which is
  \<open>2\<^sup>-\<^sup>2\<^sup>6\<close>; the sample must not be larger than the population nor than the number of
  positive probabilities. Every failed check raises ValueError. Otherwise numpy draws
  positions of \<open>a\<close> and returns the entries there. Which positions it draws depends on its
  generator: a \<open>sampler\<close> is the function from the requested size and the probabilities to
  the positions drawn. \<open>numpy_sampler\<close> is what numpy guarantees of it whenever the checks
  pass: as many positions as requested, no position twice, each of positive probability.
\<close>

type_synonym sampler = "nat \<Rightarrow> real list \<Rightarrow> nat list"

definition choice_atol :: real where
  "choice_atol = 1 / 2 ^ 26"

definition np_random_choice :: "'a list \<Rightarrow> nat \<Rightarrow> real list \<Rightarrow> sampler \<Rightarrow> error + 'a list" where
  "np_random_choice a sz p draw =
     (if length a = 0 \<and> sz \<noteq> 0 then Inl ValueError
      else if length p \<noteq> length a then Inl ValueError
      else if (\<exists>x\<in>set p. x < 0) then Inl ValueError
      else if \<bar>sum_list p - 1\<bar> > choice_atol then Inl ValueError
      else if sz > length a then Inl ValueError
      else if length (filter (\<lambda>x. 0 < x) p) < sz then Inl ValueError
      else Inr (map (\<lambda>i. a ! i) (draw sz p)))"



text \<open>The second loop: every neighbour that was not selected ages by 2.\<close>

fun update_ages :: "addr list \<Rightarrow> addr list \<Rightarrow> (addr \<rightharpoonup> int) \<Rightarrow> error option \<times> (addr \<rightharpoonup> int)" where
  "update_ages [] selected ag = (None, ag)"
| "update_ages (neighbor # rest) selected ag =
     (if neighbor \<notin> set selected then
        (case ag neighbor of
           None \<Rightarrow> (Some KeyError, ag)
         | Some age \<Rightarrow> update_ages rest selected (ag(neighbor \<mapsto> age + 2)))
      else update_ages rest selected ag)"

definition num_selected_of :: "nat \<Rightarrow> int" where
  "num_selected_of n =
     max MIN_AMOUNT_OF_SELECTED_NEIGHBORS \<lfloor>real n * MAX_PERCENT_SELECTABLE_NEIGHBORS\<rfloor>"

definition node_selection :: "selector \<Rightarrow> addr \<Rightarrow> sampler \<Rightarrow> (error + addr list) \<times> selector" where
  "node_selection self node_addr draw =
     (let neighbors = neighbors_list self in
      if length neighbors = 0 then
        (Inr [node_addr], self\<lparr>selected_nodes := [node_addr]\<rparr>)
      else
        let num_selected = num_selected_of (length neighbors) in
        case feature_loop (features self) neighbors (ages self) [] (replicate 7 []) of
          (Inl e, ag) \<Rightarrow> (Inl e, self\<lparr>ages := ag\<rparr>)
        | (Inr (avail, feature_array), ag) \<Rightarrow>
            let final_scores = final_scores_of (length neighbors) feature_array avail;
                p = normalize_l1 final_scores
            in (case np_random_choice neighbors (nat num_selected) p draw of
                  Inl e \<Rightarrow> (Inl e, self\<lparr>ages := ag\<rparr>)
                | Inr selected \<Rightarrow>
                    (case update_ages neighbors selected ag of
                       (Some e, ag2) \<Rightarrow> (Inl e, self\<lparr>ages := ag2\<rparr>)
                     | (None, ag2) \<Rightarrow>
                         (Inr (selected @ [node_addr]),
                          self\<lparr>ages := ag2, selected_nodes := selected @ [node_addr]\<rparr>))))"

section \<open>Notions used to state the selector's properties\<close>

text \<open>
  The age the first loop reads for a neighbour: the stored one, or 1 when the neighbour is
  seen for the first time. \<open>init_ages\<close> is the age map after the first loop has run over
  all of \<open>ns\<close>.
\<close>

definition age_seen :: "(addr \<rightharpoonup> int) \<Rightarrow> addr \<Rightarrow> int" where
  "age_seen ag n = (case ag n of None \<Rightarrow> 1 | Some a \<Rightarrow> a)"

definition init_ages :: "addr list \<Rightarrow> (addr \<rightharpoonup> int) \<Rightarrow> (addr \<rightharpoonup> int)" where
  "init_ages ns ag = (\<lambda>n. if n \<in> set ns \<and> ag n = None then Some 1 else ag n)"

text \<open>
  The feature vector as the specification words it: loss with \<open>-1\<close> replaced by \<open>100\<close>,
  inverted CPU load, data size, bytes received, bytes sent, inverted latency, age.
\<close>

definition raw_features :: "feature_snapshot \<Rightarrow> int \<Rightarrow> real list" where
  "raw_features f age =
     [if loss f = - 1 then 100 else loss f, 1 / (cpu_percent f + 0.000001), data_size f,
      bytes_received f, bytes_sent f, 1 / (latency f + 0.000001), of_int age]"

text \<open>
  A neighbour is readable when it has a telemetry entry and neither division of the loop
  body is a division by zero.
\<close>

definition readable :: "(addr \<rightharpoonup> feature_snapshot) \<Rightarrow> addr \<Rightarrow> bool" where
  "readable fs n \<longleftrightarrow>
     (case fs n of None \<Rightarrow> False
      | Some f \<Rightarrow> cpu_percent f + 0.000001 \<noteq> 0 \<and> latency f + 0.000001 \<noteq> 0)"

text \<open>
  The vector \<open>final_scores\<close> of a round, as the code computes it from the selector's state
  (the empty list when the first loop raises).
\<close>

definition round_final_scores :: "selector \<Rightarrow> real list" where
  "round_final_scores self =
     (case feature_loop (features self) (neighbors_list self) (ages self) [] (replicate 7 []) of
        (Inl e, ag) \<Rightarrow> []
      | (Inr (avail, feature_array), ag) \<Rightarrow>
          final_scores_of (length (neighbors_list self)) feature_array avail)"

text \<open>
  The score of a neighbour. \<open>feature_row self k\<close> is feature \<open>k\<close> of every neighbour, in the
  order of the neighbour list. \<open>claimed_score\<close> is written from the words of claim C4:
  the sum over the seven features of the weight times the L1-row-normalised value (the
  entry divided by the L1 norm of its row), multiplied by the neighbour's availability.
  \<open>spec_score\<close> is the same sum with \<open>l1_normalized\<close>, which leaves the entries of a row
  whose norm is below ten times the machine epsilon as they are.
\<close>

definition feature_row :: "selector \<Rightarrow> nat \<Rightarrow> real list" where
  "feature_row self k =
     map (\<lambda>n. raw_features (the (features self n)) (age_seen (ages self) n) ! k)
       (neighbors_list self)"

definition l1_claimed :: "real list \<Rightarrow> nat \<Rightarrow> real" where
  "l1_claimed row i = row ! i / (\<Sum>x\<leftarrow>row. \<bar>x\<bar>)"

definition claimed_score :: "selector \<Rightarrow> nat \<Rightarrow> real" where
  "claimed_score self i =
     (\<Sum>k\<leftarrow>[0..<7]. FEATURE_WEIGHTS ! k * l1_claimed (feature_row self k) i)
       * availability (the (features self (neighbors_list self ! i)))"

definition l1_normalized :: "real list \<Rightarrow> nat \<Rightarrow> real" where
  "l1_normalized row i =
     (let norm = (\<Sum>x\<leftarrow>row. \<bar>x\<bar>)
      in if norm < 10 * float_eps then row ! i else row ! i / norm)"

definition spec_score :: "selector \<Rightarrow> nat \<Rightarrow> real" where
  "spec_score self i =
     (\<Sum>k\<leftarrow>[0..<7]. FEATURE_WEIGHTS ! k * l1_normalized (feature_row self k) i)
       * availability (the (features self (neighbors_list self ! i)))"

text \<open>
  A sampler that meets numpy's guarantee: it draws the first positions of positive
  probability.
\<close>

definition first_positive :: sampler where
  "first_positive sz p = take sz (filter (\<lambda>i. 0 < p ! i) [0..<length p])"

text \<open>
  A selector with two neighbours that differ only in the bytes they received, both counts
  so small that the L1 norm of that row is below ten times the machine epsilon.
\<close>

definition tiny_selector :: selector where
  "tiny_selector = \<lparr>neighbors_list = [''a'', ''b''],
     features = [
       ''a'' \<mapsto> \<lparr>loss = 1, cpu_percent = 0.999999, data_size = 1, bytes_received = 1 / 2 ^ 60,
                bytes_sent = 1, latency = 0.999999, availability = 1\<rparr>,
       ''b'' \<mapsto> \<lparr>loss = 1, cpu_percent = 0.999999, data_size = 1, bytes_received = 3 / 2 ^ 60,
                bytes_sent = 1, latency = 0.999999, availability = 1\<rparr>],
     ages = Map.empty, selected_nodes = []\<rparr>"

text \<open>A selector with two neighbours, both with availability 0.\<close>

definition idle_snapshot :: feature_snapshot where
  "idle_snapshot = \<lparr>loss = 0.5, cpu_percent = 50, data_size = 100, bytes_received = 10,
     bytes_sent = 10, latency = 0.1, availability = 0\<rparr>"

definition idle_selector :: selector where
  "idle_selector = \<lparr>neighbors_list = [''a'', ''b''],
     features = [''a'' \<mapsto> idle_snapshot, ''b'' \<mapsto> idle_snapshot],
     ages = Map.empty, selected_nodes = []\<rparr>"

text \<open>
  A selector with two readable neighbours seen for the first time; the loss of \<open>a\<close> is the
  sentinel \<open>-1\<close>.
\<close>

definition busy_selector :: selector where
  "busy_selector = \<lparr>neighbors_list = [''a'', ''b''],
     features = [
       ''a'' \<mapsto> \<lparr>loss = - 1, cpu_percent = 0.999999, data_size = 30, bytes_received = 10,
                bytes_sent = 20, latency = 0.999999, availability = 1\<rparr>,
       ''b'' \<mapsto> \<lparr>loss = 100, cpu_percent = 0.999999, data_size = 10, bytes_received = 30,
                bytes_sent = 20, latency = 0.999999, availability = 0.5\<rparr>],
     ages = Map.empty, selected_nodes = []\<rparr>"

text \<open>
  The age map after the second loop: a neighbour of the list that is not among the selected
  ones has aged by 2 for each of its occurrences in the list.
\<close>

definition aged :: "addr list \<Rightarrow> addr list \<Rightarrow> (addr \<rightharpoonup> int) \<Rightarrow> (addr \<rightharpoonup> int)" where
  "aged ns selected ag =
     (\<lambda>n. if n \<in> set ns \<and> n \<notin> set selected
          then map_option (\<lambda>a. a + 2 * int (count_list ns n)) (ag n) else ag n)"

text \<open>
  The age invariants: every known age is at least 1; from one age map to a later one no
  neighbour is forgotten and no age decreases.
\<close>

definition ages_ok :: "(addr \<rightharpoonup> int) \<Rightarrow> bool" where
  "ages_ok ag \<longleftrightarrow> (\<forall>n a. ag n = Some a \<longrightarrow> 1 \<le> a)"

definition ages_le :: "(addr \<rightharpoonup> int) \<Rightarrow> (addr \<rightharpoonup> int) \<Rightarrow> bool" where
  "ages_le ag ag' \<longleftrightarrow> (\<forall>n a. ag n = Some a \<longrightarrow> (\<exists>a'. ag' n = Some a' \<and> a \<le> a'))"

text \<open>
  A sequence of calls of \<open>node_selection\<close>. Between two calls the transport and telemetry
  layers may replace the neighbour list and the feature snapshots; the ages and the
  selection are the selector's own. \<open>round_draw\<close> is the sampler of that round.
\<close>

record round_input =
  round_neighbors :: "addr list"
  round_features :: "addr \<rightharpoonup> feature_snapshot"
  round_draw :: sampler

definition install :: "round_input \<Rightarrow> selector \<Rightarrow> selector" where
  "install r s = s\<lparr>neighbors_list := round_neighbors r, features := round_features r\<rparr>"

fun run_rounds :: "addr \<Rightarrow> round_input list \<Rightarrow> selector \<Rightarrow> selector" where
  "run_rounds node_addr [] s = s"
| "run_rounds node_addr (r # rs) s =
     run_rounds node_addr rs (snd (node_selection (install r s) node_addr (round_draw r)))"

text \<open>
  The round that presents the two busy neighbours and draws the first positive position,
  and the selector after one such round.
\<close>

definition busy_round :: round_input where
  "busy_round = \<lparr>round_neighbors = [''a'', ''b''], round_features = features busy_selector,
     round_draw = first_positive\<rparr>"

definition busy_selector_2 :: selector where
  "busy_selector_2 = busy_selector\<lparr>ages := [''a'' \<mapsto> 1, ''b'' \<mapsto> 3],
     selected_nodes := [''a'', ''me'']\<rparr>"


definition crowd_snapshot :: feature_snapshot where
  "crowd_snapshot = \<lparr>loss = 1, cpu_percent = 0.999999, data_size = 1, bytes_received = 1,
     bytes_sent = 1, latency = 0.999999, availability = 1\<rparr>"

definition crowd_selector :: selector where
  "crowd_selector = \<lparr>neighbors_list = [''b'', ''c'', ''d'', ''e'', ''a'', ''a''],
     features = (\<lambda>n. Some crowd_snapshot),
     ages = Map.empty, selected_nodes = []\<rparr>"

section \<open>aggregation/dynamicAggregator.py and aggregation/reactiveAggregator.py\<close>

text \<open>
  The aggregator classes the two files name. Their own code is not part of the modelled
  files: running one of them on an update set is a parameter of the model.
\<close>

datatype aggregator_cls =
  FedAvg | Krum | Median | TrimmedMean | Bulyan | BlockchainReputation | DynamicAggregator

text \<open>The \<open>__name__\<close> of a class.\<close>

fun cls_name :: "aggregator_cls \<Rightarrow> string" where
  "cls_name FedAvg = ''FedAvg''"
| "cls_name Krum = ''Krum''"
| "cls_name Median = ''Median''"
| "cls_name TrimmedMean = ''TrimmedMean''"
| "cls_name Bulyan = ''Bulyan''"
| "cls_name BlockchainReputation = ''BlockchainReputation''"
| "cls_name DynamicAggregator = ''DynamicAggregator''"

text \<open>
  What the code logs, in order: calls of \<open>logging.info\<close> and \<open>logging.error\<close> with the constant
  part of the message and the value formatted into it, and calls of
  \<open>engine.nebulalogger.log_text\<close> with tag, text and step.
\<close>

datatype log_arg = No_arg | Nodes "addr list" | Cls aggregator_cls | Name string

datatype log_record =
  Logging_info string log_arg
| Logging_error string log_arg
| Log_text string log_arg nat

text \<open>
  What the two aggregators use and do not define, for update sets of type \<open>'m\<close> and aggregated
  models of type \<open>'r\<close>: the \<open>run_aggregation\<close> of the base class \<open>Aggregator\<close>, whose result is
  discarded (\<open>None\<close> when it returns, \<open>Some e\<close> when it raises \<open>e\<close>); the reputation
  calculation of the engine, which returns the malicious nodes and a score, or raises; the
  engine's round; building an instance of one of the other six classes with the
  configuration and running its \<open>run_aggregation\<close> on an update set; and the participant's
  configuration, a dictionary of dictionaries. Collaborators do not change the update set
  they are given.

  The attributes of an instance come from the \<open>__init__\<close> of the base class. An instance that
  is built with the configuration and the engine has that engine. For an instance that is
  built with the configuration only, \<open>config_only_engine\<close> is the outcome of reading
  \<open>self.engine.nebulalogger\<close> and \<open>self.engine.round\<close> on it: the round, or the exception
  raised (AttributeError when the engine is \<open>None\<close>). The \<open>run_aggregation\<close> of the base
  class is taken to depend on the update set only, and building an instance of
  \<open>DynamicAggregator\<close> to return.
\<close>

record ('m, 'r) world =
  base_run_aggregation :: "'m \<Rightarrow> error option"
  reputation_calculation :: "'m \<Rightarrow> error + addr list \<times> real"
  engine_round :: nat
  strategy_run_aggregation :: "aggregator_cls \<Rightarrow> 'm \<Rightarrow> error + 'r"
  config_only_engine :: "error + nat"
  participant :: "string \<rightharpoonup> (string \<rightharpoonup> string)"

text \<open>
  The process-wide generator of the module \<open>random\<close>, as the stream of its future raw
  outputs. \<open>random.choice(seq)\<close> is \<open>seq[_randbelow(len(seq))]\<close>: it raises IndexError on an
  empty sequence, and otherwise consumes one output, brought into the range of the indices.
  Nothing in the two files seeds the generator: the lines that would are comments.
\<close>

type_synonym rng = "nat \<Rightarrow> nat"

definition random_choice :: "rng \<Rightarrow> 'a list \<Rightarrow> (error + 'a) \<times> rng" where
  "random_choice g seq =
     (if length seq = 0 then (Inl IndexError, g)
      else (Inr (seq ! (g 0 mod length seq)), \<lambda>i. g (Suc i)))"

definition available_aggregators :: "aggregator_cls list" where
  "available_aggregators = [FedAvg, Krum, Median, TrimmedMean, Bulyan]"

text \<open>
  \<open>DynamicAggregator.run_aggregation(self, models, reactive_aggregator)\<close>: the result or the
  exception, the records logged, and the generator afterwards. Of \<open>self\<close> the method reads
  the engine, and only in the statement that logs the chosen class, after the choice has
  been made: \<open>self_engine\<close> is the outcome of reading it there. The chosen class is one of
  the five candidates, never \<open>DynamicAggregator\<close> itself.
\<close>

definition DynamicAggregator_run_aggregation_on ::
  "error + nat \<Rightarrow> ('m, 'r) world \<Rightarrow> rng \<Rightarrow> 'm \<Rightarrow> bool \<Rightarrow> (error + 'r) \<times> log_record list \<times> rng" where
  "DynamicAggregator_run_aggregation_on self_engine w g models reactive_aggregator =
     (let log0 = [Logging_info ''[DynamicAggregator] Initializing Aggregation'' No_arg] in
      case base_run_aggregation w models of
        Some e \<Rightarrow> (Inl e, log0, g)
      | None \<Rightarrow>
          (case random_choice g available_aggregators of
             (Inl e, g') \<Rightarrow> (Inl e, log0, g')
           | (Inr chosen_aggregator_cls, g') \<Rightarrow>
               let log1 = log0 @
                     [Logging_info ''[DynamicAggregator] Chosen Aggregator: ''
                        (Cls chosen_aggregator_cls)]
               in (case self_engine of
                     Inl e \<Rightarrow> (Inl e, log1, g')
                   | Inr self_round \<Rightarrow>
                       let log2 = log1 @
                             [if reactive_aggregator
                              then Log_text ''[ReactiveAggregator] Using DynamicAggregator: Chosen Aggregator''
                                     (Name (cls_name chosen_aggregator_cls)) self_round
                              else Log_text ''[DynamicAggregator] Chosen Aggregator''
                                     (Name (cls_name chosen_aggregator_cls)) self_round]
                       in (strategy_run_aggregation w chosen_aggregator_cls models, log2, g'))))"

text \<open>
  The method on an instance that has the engine of the world: the instance that the
  reactive aggregator builds with \<open>engine = self.engine\<close>, and a dynamic aggregator that the
  node runs on its own.
\<close>

definition DynamicAggregator_run_aggregation ::
  "('m, 'r) world \<Rightarrow> rng \<Rightarrow> 'm \<Rightarrow> bool \<Rightarrow> (error + 'r) \<times> log_record list \<times> rng" where
  "DynamicAggregator_run_aggregation w g models reactive_aggregator =
     DynamicAggregator_run_aggregation_on (Inr (engine_round w)) w g models reactive_aggregator"

text \<open>
  \<open>cls(config=self.config).run_aggregation(models)\<close>, the last two lines of the reactive
  aggregator: an instance of the class is built with the configuration only and run. For
  \<open>DynamicAggregator\<close> this is the method above, with \<open>reactive_aggregator\<close> at its default
  \<open>False\<close>; the other classes log nothing that is modelled and do not use the generator.
\<close>

definition config_only_run_aggregation ::
  "('m, 'r) world \<Rightarrow> rng \<Rightarrow> aggregator_cls \<Rightarrow> 'm \<Rightarrow> (error + 'r) \<times> log_record list \<times> rng" where
  "config_only_run_aggregation w g cls models =
     (if cls = DynamicAggregator
      then DynamicAggregator_run_aggregation_on (config_only_engine w) w g models False
      else (strategy_run_aggregation w cls models, [], g))"

definition ALGORITHM_MAP :: "string \<rightharpoonup> aggregator_cls" where
  "ALGORITHM_MAP = map_of
     [(''FedAvg'', FedAvg),
      (''Krum'', Krum),
      (''Median'', Median),
      (''TrimmedMean'', TrimmedMean),
      (''Bulyan'', Bulyan),
      (''BlockchainReputation'', BlockchainReputation),
      (''DynamicAggregator'', DynamicAggregator)]"

text \<open>
  \<open>ReactiveAggregator.run_aggregation(models)\<close>. An exception of the base class or of the
  reputation calculation is not caught. A missing configuration key raises KeyError. The
  default aggregator is built with the configuration only, and its records and its use of
  the generator are those of the call.
\<close>

definition ReactiveAggregator_run_aggregation ::
  "('m, 'r) world \<Rightarrow> rng \<Rightarrow> 'm \<Rightarrow> (error + 'r) \<times> log_record list \<times> rng" where
  "ReactiveAggregator_run_aggregation w g models =
     (let log0 = [Logging_info ''[ReactiveAggregator] Initializing Aggregation'' No_arg] in
      case base_run_aggregation w models of
        Some e \<Rightarrow> (Inl e, log0, g)
      | None \<Rightarrow>
          (case reputation_calculation w models of
             Inl e \<Rightarrow> (Inl e, log0, g)
           | Inr (malicious_nodes, reputation_score) \<Rightarrow>
               if length malicious_nodes > 0 then
                 let log1 = log0 @
                       [Logging_info ''[ReactiveAggregator] Detected Malicious Nodes: ''
                          (Nodes malicious_nodes),
                        Log_text ''[ReactiveAggregator] Malicious nodes'' (Nodes malicious_nodes)
                          (engine_round w),
                        Logging_info ''[ReactiveAggregator] Malicious Node - Using Dynamic Aggregator''
                          No_arg]
                 in (case DynamicAggregator_run_aggregation w g models True of
                       (result, log2, g') \<Rightarrow> (result, log1 @ log2, g'))
               else
                 let log1 = log0 @
                       [Logging_info ''[ReactiveAggregator] No Malicious Nodes Detected'' No_arg,
                        Log_text ''[ReactiveAggregator] Malicious nodes'' (Name ''None'')
                          (engine_round w)]
                 in (case participant w ''aggregator_args'' of
                       None \<Rightarrow> (Inl KeyError, log1, g)
                     | Some aggregator_args \<Rightarrow>
                         (case aggregator_args ''reactive_aggregator_default'' of
                            None \<Rightarrow> (Inl KeyError, log1, g)
                          | Some default_aggregator \<Rightarrow>
                              let log2 = log1 @
                                    [Logging_info ''[ReactiveAggregator] Normal Node - Using Aggregator ''
                                       (Name default_aggregator)];
                                  (log3, default_aggregator) =
                                    (if ALGORITHM_MAP default_aggregator = None
                                     then (log2 @
                                       [Logging_error
                                          ''[ReactiveAggregator] Invalid default aggregator, falling back to FedAvg''
                                          (Name default_aggregator)], ''FedAvg'')
                                     else (log2, default_aggregator))
                              in (case ALGORITHM_MAP default_aggregator of
                                    None \<Rightarrow> (Inl KeyError, log3, g)
                                  | Some default_aggregator_cls \<Rightarrow>
                                      (case config_only_run_aggregation w g
                                              default_aggregator_cls models of
                                         (result, log4, g') \<Rightarrow> (result, log3 @ log4, g')))))))"

text \<open>
  A world that records which class is run on which update set: the base class returns, the
  reputation calculation gives the fixed answer \<open>reputation\<close>, running a class returns the
  class and the update set it was given, and an instance built with the configuration only
  has no engine.
\<close>

definition probe_world ::
  "error + addr list \<times> real \<Rightarrow> (string \<rightharpoonup> (string \<rightharpoonup> string)) \<Rightarrow> ('m, aggregator_cls \<times> 'm) world" where
  "probe_world reputation cfg =
     \<lparr>base_run_aggregation = (\<lambda>models. None),
      reputation_calculation = (\<lambda>models. reputation),
      engine_round = 0,
      strategy_run_aggregation = (\<lambda>cls models. Inr (cls, models)),
      config_only_engine = Inl AttributeError,
      participant = cfg\<rparr>"

text \<open>Successive standalone invocations of the random dispatcher in one process.\<close>

fun dispatch_rounds :: "('m, 'r) world \<Rightarrow> rng \<Rightarrow> 'm list \<Rightarrow> (error + 'r) list" where
  "dispatch_rounds w g [] = []"
| "dispatch_rounds w g (models # rest) =
     (case DynamicAggregator_run_aggregation w g models False of
        (result, records, g') \<Rightarrow> result # dispatch_rounds w g' rest)"

text \<open>
  Three configurations, one whose default is a key of \<open>ALGORITHM_MAP\<close>, one whose default
  is not, and one whose default is the dynamic aggregator, and an update set of two nodes.
\<close>

definition krum_config :: "string \<rightharpoonup> (string \<rightharpoonup> string)" where
  "krum_config = [''aggregator_args'' \<mapsto> [''reactive_aggregator_default'' \<mapsto> ''Krum'']]"

definition typo_config :: "string \<rightharpoonup> (string \<rightharpoonup> string)" where
  "typo_config = [''aggregator_args'' \<mapsto> [''reactive_aggregator_default'' \<mapsto> ''krum'']]"

definition dynamic_config :: "string \<rightharpoonup> (string \<rightharpoonup> string)" where
  "dynamic_config =
     [''aggregator_args'' \<mapsto> [''reactive_aggregator_default'' \<mapsto> ''DynamicAggregator'']]"

definition two_updates :: "(addr \<times> real list) list" where
  "two_updates = [(''a'', [2]), (''b'', [4])]"

text \<open>
  A second update set, and a generator in the state a fixed seed puts it in (its outputs
  are 0, 1, 2, ...).
\<close>

definition other_updates :: "(addr \<times> real list) list" where
  "other_updates = [(''c'', [1, 5]), (''d'', [0, 0]), (''e'', [3, 3])]"

definition seeded_generator :: rng where
  "seeded_generator = (\<lambda>i. i)"

section \<open>models/nebulamodel.py\<close>

text \<open>
  The attributes of a \<open>NebulaModel\<close> that its methods write. A metric collection or a
  confusion matrix is the list of the (predicted classes, labels) pairs it has been
  updated with since it was last reset; a confusion matrix may be \<open>None\<close>. The attribute
  \<open>self.loss\<close> is the field \<open>self_loss\<close>.
\<close>

record ('c, 'y) nebula_model =
  input_channels :: int
  num_classes :: int
  learning_rate :: real
  self_loss :: real
  train_metrics :: "('c \<times> 'y) list"
  val_metrics :: "('c \<times> 'y) list"
  test_metrics :: "('c \<times> 'y) list"
  test_metrics_global :: "('c \<times> 'y) list"
  cm :: "('c \<times> 'y) list option"
  cm_global :: "('c \<times> 'y) list option"
  global_number :: "string \<rightharpoonup> int"

text \<open>
  What a concrete model supplies: the abstract \<open>forward\<close>, the criterion of the subclass,
  and \<open>torch.argmax(y_pred, dim = 1)\<close>.
\<close>

record ('x, 'y, 'p, 'c) net =
  forward :: "'x \<Rightarrow> 'p"
  criterion :: "'p \<Rightarrow> 'y \<Rightarrow> real"
  argmax :: "'p \<Rightarrow> 'c"

text \<open>\<open>__init__\<close> with the defaults \<open>metrics = None\<close> and \<open>confusion_matrix = None\<close>.\<close>

definition NebulaModel_init :: "int \<Rightarrow> int \<Rightarrow> real \<Rightarrow> ('c, 'y) nebula_model" where
  "NebulaModel_init input_channels' num_classes' learning_rate' =
     \<lparr>input_channels = input_channels',
      num_classes = num_classes',
      learning_rate = learning_rate',
      self_loss = - 1,
      train_metrics = [],
      val_metrics = [],
      test_metrics = [],
      test_metrics_global = [],
      cm = Some [],
      cm_global = Some [],
      global_number = [''Train'' \<mapsto> 0, ''Validation'' \<mapsto> 0, ''Test (Local)'' \<mapsto> 0,
                       ''Test (Global)'' \<mapsto> 0]\<rparr>"

definition process_metrics ::
  "('x, 'y, 'p, 'c) net \<Rightarrow> string \<Rightarrow> 'p \<Rightarrow> 'y \<Rightarrow> ('c, 'y) nebula_model
     \<Rightarrow> error option \<times> ('c, 'y) nebula_model" where
  "process_metrics n phase y_pred y self =
     (let y_pred_classes = argmax n y_pred in
      if phase = ''Train'' then
        (None, self\<lparr>train_metrics := train_metrics self @ [(y_pred_classes, y)]\<rparr>)
      else if phase = ''Validation'' then
        (None, self\<lparr>val_metrics := val_metrics self @ [(y_pred_classes, y)]\<rparr>)
      else if phase = ''Test (Local)'' then
        (None, self\<lparr>test_metrics := test_metrics self @ [(y_pred_classes, y)],
                    cm := map_option (\<lambda>m. m @ [(y_pred_classes, y)]) (cm self)\<rparr>)
      else if phase = ''Test (Global)'' then
        (None, self\<lparr>test_metrics_global := test_metrics_global self @ [(y_pred_classes, y)],
                    cm_global := map_option (\<lambda>m. m @ [(y_pred_classes, y)]) (cm_global self)\<rparr>)
      else (Some NotImplementedError, self))"

definition step ::
  "('x, 'y, 'p, 'c) net \<Rightarrow> 'x \<times> 'y \<Rightarrow> string \<Rightarrow> ('c, 'y) nebula_model
     \<Rightarrow> (error + real) \<times> ('c, 'y) nebula_model" where
  "step n batch phase self =
     (case batch of (x, y) \<Rightarrow>
        let y_pred = forward n x;
            loss_value = criterion n y_pred y
        in (case process_metrics n phase y_pred y self of
              (Some e, self') \<Rightarrow> (Inl e, self')
            | (None, self') \<Rightarrow> (Inr loss_value, self')))"

definition training_step ::
  "('x, 'y, 'p, 'c) net \<Rightarrow> 'x \<times> 'y \<Rightarrow> ('c, 'y) nebula_model
     \<Rightarrow> (error + real) \<times> ('c, 'y) nebula_model" where
  "training_step n batch self =
     (case step n batch ''Train'' self of
        (Inl e, self') \<Rightarrow> (Inl e, self')
      | (Inr loss_value, self') \<Rightarrow> (Inr loss_value, self'\<lparr>self_loss := loss_value\<rparr>))"

definition validation_step ::
  "('x, 'y, 'p, 'c) net \<Rightarrow> 'x \<times> 'y \<Rightarrow> ('c, 'y) nebula_model
     \<Rightarrow> (error + real) \<times> ('c, 'y) nebula_model" where
  "validation_step n batch self = step n batch ''Validation'' self"

definition test_step ::
  "('x, 'y, 'p, 'c) net \<Rightarrow> 'x \<times> 'y \<Rightarrow> int option \<Rightarrow> ('c, 'y) nebula_model
     \<Rightarrow> (error + real) \<times> ('c, 'y) nebula_model" where
  "test_step n batch dataloader_idx self =
     (if dataloader_idx = Some 0 then step n batch ''Test (Local)'' self
      else step n batch ''Test (Global)'' self)"

text \<open>\<open>self.global_number[phase] += 1\<close>.\<close>

definition count_phase :: "string \<Rightarrow> ('c, 'y) nebula_model \<Rightarrow> error option \<times> ('c, 'y) nebula_model" where
  "count_phase phase self =
     (case global_number self phase of
        None \<Rightarrow> (Some KeyError, self)
      | Some k \<Rightarrow> (None, self\<lparr>global_number := (global_number self)(phase \<mapsto> k + 1)\<rparr>))"

text \<open>
  \<open>log_metrics_end\<close> computes and prints the metrics of a phase and changes nothing;
  \<open>generate_confusion_matrix\<close> computes, prints and plots the matrix of a test phase and
  resets it.
\<close>

definition log_metrics_end :: "string \<Rightarrow> ('c, 'y) nebula_model \<Rightarrow> error option" where
  "log_metrics_end phase self =
     (if phase = ''Train'' \<or> phase = ''Validation'' \<or> phase = ''Test (Local)''
         \<or> phase = ''Test (Global)''
      then None else Some NotImplementedError)"

definition generate_confusion_matrix ::
  "string \<Rightarrow> ('c, 'y) nebula_model \<Rightarrow> error option \<times> ('c, 'y) nebula_model" where
  "generate_confusion_matrix phase self =
     (if phase = ''Test (Local)'' then
        (case cm self of
           None \<Rightarrow> (Some ValueError, self)
         | Some m \<Rightarrow> (None, self\<lparr>cm := Some []\<rparr>))
      else if phase = ''Test (Global)'' then
        (case cm_global self of
           None \<Rightarrow> (Some ValueError, self)
         | Some m \<Rightarrow> (None, self\<lparr>cm_global := Some []\<rparr>))
      else (Some NotImplementedError, self))"

definition on_train_end :: "('c, 'y) nebula_model \<Rightarrow> error option \<times> ('c, 'y) nebula_model" where
  "on_train_end self = count_phase ''Train'' self"

definition on_train_epoch_end :: "('c, 'y) nebula_model \<Rightarrow> error option \<times> ('c, 'y) nebula_model" where
  "on_train_epoch_end self =
     (case log_metrics_end ''Train'' self of
        Some e \<Rightarrow> (Some e, self)
      | None \<Rightarrow> (None, self\<lparr>train_metrics := []\<rparr>))"

definition on_validation_end :: "('c, 'y) nebula_model \<Rightarrow> error option \<times> ('c, 'y) nebula_model" where
  "on_validation_end self = count_phase ''Validation'' self"

definition on_validation_epoch_end ::
  "('c, 'y) nebula_model \<Rightarrow> error option \<times> ('c, 'y) nebula_model" where
  "on_validation_epoch_end self =
     (case log_metrics_end ''Validation'' self of
        Some e \<Rightarrow> (Some e, self)
      | None \<Rightarrow> (None, self\<lparr>val_metrics := []\<rparr>))"

definition on_test_end :: "('c, 'y) nebula_model \<Rightarrow> error option \<times> ('c, 'y) nebula_model" where
  "on_test_end self =
     (case count_phase ''Test (Local)'' self of
        (Some e, self') \<Rightarrow> (Some e, self')
      | (None, self') \<Rightarrow> count_phase ''Test (Global)'' self')"

definition on_test_epoch_end :: "('c, 'y) nebula_model \<Rightarrow> error option \<times> ('c, 'y) nebula_model" where
  "on_test_epoch_end self =
     (case log_metrics_end ''Test (Local)'' self of
        Some e \<Rightarrow> (Some e, self)
      | None \<Rightarrow>
          (case log_metrics_end ''Test (Global)'' self of
             Some e \<Rightarrow> (Some e, self)
           | None \<Rightarrow>
               (case generate_confusion_matrix ''Test (Local)'' self of
                  (Some e, self1) \<Rightarrow> (Some e, self1)
                | (None, self1) \<Rightarrow>
                    (case generate_confusion_matrix ''Test (Global)'' self1 of
                       (Some e, self2) \<Rightarrow> (Some e, self2)
                     | (None, self2) \<Rightarrow>
                         (None, self2\<lparr>test_metrics := [], test_metrics_global := []\<rparr>)))))"

text \<open>
  The calls the training framework makes on a model, and the state after a sequence of
  them (a call that raises leaves the state it had reached).
\<close>

datatype ('x, 'y) model_call =
  Training_step "'x \<times> 'y"
| Validation_step "'x \<times> 'y"
| Test_step "'x \<times> 'y" "int option"
| On_train_end
| On_train_epoch_end
| On_validation_end
| On_validation_epoch_end
| On_test_end
| On_test_epoch_end

fun is_training_step :: "('x, 'y) model_call \<Rightarrow> bool" where
  "is_training_step (Training_step batch) = True"
| "is_training_step other = False"

fun perform ::
  "('x, 'y, 'p, 'c) net \<Rightarrow> ('x, 'y) model_call \<Rightarrow> ('c, 'y) nebula_model \<Rightarrow> ('c, 'y) nebula_model" where
  "perform n (Training_step batch) self = snd (training_step n batch self)"
| "perform n (Validation_step batch) self = snd (validation_step n batch self)"
| "perform n (Test_step batch dataloader_idx) self = snd (test_step n batch dataloader_idx self)"
| "perform n On_train_end self = snd (on_train_end self)"
| "perform n On_train_epoch_end self = snd (on_train_epoch_end self)"
| "perform n On_validation_end self = snd (on_validation_end self)"
| "perform n On_validation_epoch_end self = snd (on_validation_epoch_end self)"
| "perform n On_test_end self = snd (on_test_end self)"
| "perform n On_test_epoch_end self = snd (on_test_epoch_end self)"

fun run_calls ::
  "('x, 'y, 'p, 'c) net \<Rightarrow> ('x, 'y) model_call list \<Rightarrow> ('c, 'y) nebula_model
     \<Rightarrow> ('c, 'y) nebula_model" where
  "run_calls n [] self = self"
| "run_calls n (c # cs) self = run_calls n cs (perform n c self)"

text \<open>A model that predicts its input and whose loss is the distance to the label.\<close>

definition toy_net :: "(real, real, real, int) net" where
  "toy_net = \<lparr>forward = (\<lambda>x. x), criterion = (\<lambda>p y. \<bar>p - y\<bar>), argmax = (\<lambda>p. \<lfloor>p\<rfloor>)\<rparr>"

definition fresh_model :: "(int, real) nebula_model" where
  "fresh_model = NebulaModel_init 1 10 0.001"

section \<open>Properties of the selector\<close>

subsection \<open>The first loop\<close>

lemma feature_list_of_Inr:
  "feature_list_of f age = Inr fl \<Longrightarrow>
     fl = raw_features f age \<and> cpu_percent f + 0.000001 \<noteq> 0 \<and> latency f + 0.000001 \<noteq> 0"
  by (auto simp: feature_list_of_def raw_features_def Let_def split: if_splits)

lemma feature_list_of_readable:
  "cpu_percent f + 0.000001 \<noteq> 0 \<Longrightarrow> latency f + 0.000001 \<noteq> 0 \<Longrightarrow>
     feature_list_of f age = Inr (raw_features f age)"
  by (auto simp: feature_list_of_def raw_features_def Let_def)

lemma length_raw_features [simp]: "length (raw_features f age) = 7"
  by (simp add: raw_features_def)

lemma map2_append_column:
  "length m = length c \<Longrightarrow>
     map2 (\<lambda>row x. row @ [x]) m c = map (\<lambda>k. m ! k @ [c ! k]) [0..<length m]"
  by (rule nth_equalityI) auto

lemma init_ages_Cons:
  "init_ages rest (case ag n of None \<Rightarrow> ag(n \<mapsto> 1) | Some x \<Rightarrow> ag) = init_ages (n # rest) ag"
  by (rule ext) (auto simp: init_ages_def split: option.splits)

lemma age_seen_step:
  "age_seen (case ag n of None \<Rightarrow> ag(n \<mapsto> 1) | Some x \<Rightarrow> ag) m = age_seen ag m"
  by (auto simp: age_seen_def split: option.splits)

lemma feature_loop_Inr:
  "feature_loop fs ns ag av fa = (Inr (av', fa'), ag') \<Longrightarrow> length fa = 7 \<Longrightarrow>
     av' = av @ map (\<lambda>n. availability (the (fs n))) ns \<and>
     fa' = map (\<lambda>k. fa ! k @ map (\<lambda>n. raw_features (the (fs n)) (age_seen ag n) ! k) ns) [0..<7] \<and>
     ag' = init_ages ns ag \<and> (\<forall>n\<in>set ns. readable fs n)"
proof (induction ns arbitrary: ag av fa)
  case Nil
  then show ?case
    by (auto simp: init_ages_def intro!: nth_equalityI)
next
  case (Cons n rest)
  let ?ag1 = "case ag n of None \<Rightarrow> ag(n \<mapsto> 1) | Some x \<Rightarrow> ag"
  from Cons.prems(1) obtain f where f: "fs n = Some f"
    by (auto simp: Let_def split: option.splits)
  have a1: "?ag1 n = Some (age_seen ag n)"
    by (auto simp: age_seen_def split: option.splits)
  let ?fl = "raw_features f (age_seen ag n)"
  from Cons.prems(1) f a1 obtain fl0 where fl0: "feature_list_of f (age_seen ag n) = Inr fl0"
    by (auto simp: Let_def split: sum.splits)
  from feature_list_of_Inr [OF fl0] have fl: "feature_list_of f (age_seen ag n) = Inr ?fl"
    and rd: "readable fs n" using fl0 by (auto simp: readable_def f)
  let ?fa1 = "map2 (\<lambda>row x. row @ [x]) fa ?fl"
  from Cons.prems(1) f a1 fl
  have rec: "feature_loop fs rest ?ag1 (av @ [availability f]) ?fa1 = (Inr (av', fa'), ag')"
    by (simp add: Let_def)
  have len: "length ?fa1 = 7" using Cons.prems(2) by simp
  have fa1: "?fa1 = map (\<lambda>k. fa ! k @ [?fl ! k]) [0..<7]"
    using map2_append_column [of fa ?fl] Cons.prems(2) by simp
  from Cons.IH [OF rec len]
  have av': "av' = (av @ [availability f]) @ map (\<lambda>n. availability (the (fs n))) rest"
    and fa': "fa' = map (\<lambda>k. ?fa1 ! k @ map (\<lambda>n. raw_features (the (fs n)) (age_seen ?ag1 n) ! k) rest) [0..<7]"
    and ag': "ag' = init_ages rest ?ag1" and rdr: "\<forall>n\<in>set rest. readable fs n"
    by blast+
  have "fa' = map (\<lambda>k. fa ! k @ map (\<lambda>n. raw_features (the (fs n)) (age_seen ag n) ! k) (n # rest)) [0..<7]"
    unfolding fa' by (rule nth_equalityI) (simp_all add: fa1 age_seen_step f)
  with av' ag' rd rdr f show ?case
    by (simp add: init_ages_Cons)
qed

lemma feature_loop_readable:
  "\<forall>n\<in>set ns. readable fs n \<Longrightarrow> \<exists>av' fa'. feature_loop fs ns ag av fa = (Inr (av', fa'), init_ages ns ag)"
proof (induction ns arbitrary: ag av fa)
  case Nil
  then show ?case by (simp add: init_ages_def)
next
  case (Cons n rest)
  let ?ag1 = "case ag n of None \<Rightarrow> ag(n \<mapsto> 1) | Some x \<Rightarrow> ag"
  from Cons.prems obtain f where f: "fs n = Some f"
    and d: "cpu_percent f + 0.000001 \<noteq> 0" "latency f + 0.000001 \<noteq> 0"
    by (auto simp: readable_def split: option.splits)
  have a1: "?ag1 n = Some (age_seen ag n)"
    by (auto simp: age_seen_def split: option.splits)
  from Cons.prems have "\<forall>n\<in>set rest. readable fs n" by simp
  from Cons.IH [OF this, of ?ag1] show ?case
    using f a1 feature_list_of_readable [OF d]
    by (simp add: Let_def init_ages_Cons)
qed


subsection \<open>Normalisation\<close>

lemma float_eps_pos: "0 < float_eps"
  by (simp add: float_eps_def)

lemma length_normalize_l1 [simp]: "length (normalize_l1 row) = length row"
  by (simp add: normalize_l1_def Let_def)

lemma nth_normalize_l1: "i < length row \<Longrightarrow> normalize_l1 row ! i = l1_normalized row i"
  by (simp add: normalize_l1_def l1_normalized_def Let_def)

lemma l1_normalized_claimed:
  "10 * float_eps \<le> (\<Sum>x\<leftarrow>row. \<bar>x\<bar>) \<Longrightarrow> l1_normalized row i = l1_claimed row i"
  by (simp add: l1_normalized_def l1_claimed_def Let_def)

lemma normalize_l1_zeros: "\<forall>x\<in>set r. x = 0 \<Longrightarrow> normalize_l1 r = r"
proof -
  assume z: "\<forall>x\<in>set r. x = 0"
  then have "(\<Sum>x\<leftarrow>r. \<bar>x\<bar>) = 0" by (induction r) auto
  then show ?thesis using float_eps_pos by (simp add: normalize_l1_def)
qed

lemma sum_list_zeros: "\<forall>x\<in>set r. x = (0::real) \<Longrightarrow> sum_list r = 0"
  by (induction r) auto

lemma sum_list_normalize_l1:
  assumes "\<forall>x\<in>set r. 0 < x" and "10 * float_eps \<le> sum_list r"
  shows "sum_list (normalize_l1 r) = 1" and "\<forall>x\<in>set (normalize_l1 r). 0 < x"
proof -
  have a: "(\<Sum>x\<leftarrow>r. \<bar>x\<bar>) = sum_list r"
    using assms(1) by (induction r) auto
  have p: "0 < sum_list r" using assms(2) float_eps_pos by simp
  have n: "normalize_l1 r = map (\<lambda>x. x / sum_list r) r"
    using assms(2) by (simp add: normalize_l1_def a)
  have "sum_list (map (\<lambda>x. x / c) r) = sum_list r / c" for c :: real
    by (induction r) (simp_all add: add_divide_distrib)
  then have "sum_list (map (\<lambda>x. x / sum_list r) r) = sum_list r / sum_list r" .
  then show "sum_list (normalize_l1 r) = 1"
    using p by (simp add: n)
  show "\<forall>x\<in>set (normalize_l1 r). 0 < x"
    using p assms(1) by (auto simp: n)
qed

subsection \<open>The score of a neighbour\<close>

lemma map2_upt:
  "length ys = n \<Longrightarrow> map2 f (map g [0..<n]) ys = map (\<lambda>k. f (g k) (ys ! k)) [0..<n]"
  by (rule nth_equalityI) auto

lemma length_FEATURE_WEIGHTS: "length FEATURE_WEIGHTS = 7"
  by (simp add: FEATURE_WEIGHTS_def)

lemma scores_of_rows:
  assumes "\<And>k. k < 7 \<Longrightarrow> length (g k) = n"
  shows "scores_of n (map g [0..<7]) =
     map (\<lambda>j. \<Sum>k\<leftarrow>[0..<7]. l1_normalized (g k) j * FEATURE_WEIGHTS ! k) [0..<n]"
proof -
  have w: "map2 (\<lambda>row w. map (\<lambda>x. x * w) row) (map normalize_l1 (map g [0..<7])) FEATURE_WEIGHTS
      = map (\<lambda>k. map (\<lambda>x. x * FEATURE_WEIGHTS ! k) (normalize_l1 (g k))) [0..<7]"
    using map2_upt [OF length_FEATURE_WEIGHTS, of "\<lambda>row w. map (\<lambda>x. x * w) row" "\<lambda>k. normalize_l1 (g k)"]
    by (simp add: comp_def)
  have "\<And>j. j < n \<Longrightarrow>
      (\<Sum>k\<leftarrow>[0..<7]. map (\<lambda>x. x * FEATURE_WEIGHTS ! k) (normalize_l1 (g k)) ! j)
      = (\<Sum>k\<leftarrow>[0..<7]. l1_normalized (g k) j * FEATURE_WEIGHTS ! k)"
    by (rule arg_cong [where f = sum_list], rule map_cong) (simp_all add: assms nth_normalize_l1)
  then show ?thesis
    unfolding scores_of_def Let_def w column_sums_def
    by (simp add: comp_def)
qed

lemma round_final_scores_readable:
  assumes "\<forall>n\<in>set (neighbors_list self). readable (features self) n"
  shows "round_final_scores self = map (spec_score self) [0..<length (neighbors_list self)]"
proof -
  let ?ns = "neighbors_list self"
  from feature_loop_readable [OF assms, of "ages self" "[]" "replicate 7 []"]
  obtain av fa where fl: "feature_loop (features self) ?ns (ages self) [] (replicate 7 [])
      = (Inr (av, fa), init_ages ?ns (ages self))" by blast
  from feature_loop_Inr [OF fl]
  have av: "av = map (\<lambda>n. availability (the (features self n))) ?ns"
    and fa: "fa = map (feature_row self) [0..<7]"
    by (simp_all add: feature_row_def)
  have sc: "scores_of (length ?ns) fa =
     map (\<lambda>j. \<Sum>k\<leftarrow>[0..<7]. l1_normalized (feature_row self k) j * FEATURE_WEIGHTS ! k) [0..<length ?ns]"
    unfolding fa by (rule scores_of_rows) (simp add: feature_row_def)
  have "round_final_scores self = map2 (*) (scores_of (length ?ns) fa) av"
    by (simp add: round_final_scores_def fl final_scores_of_def)
  also have "\<dots> = map (spec_score self) [0..<length ?ns]"
    unfolding sc av
    by (rule nth_equalityI) (simp_all add: spec_score_def mult.commute)
  finally show ?thesis .
qed

lemma spec_score_claimed:
  assumes "\<forall>k<7. 10 * float_eps \<le> (\<Sum>x\<leftarrow>feature_row self k. \<bar>x\<bar>)"
  shows "spec_score self i = claimed_score self i"
proof -
  have "(\<Sum>k\<leftarrow>[0..<7]. FEATURE_WEIGHTS ! k * l1_normalized (feature_row self k) i)
      = (\<Sum>k\<leftarrow>[0..<7]. FEATURE_WEIGHTS ! k * l1_claimed (feature_row self k) i)"
    by (rule arg_cong [where f = sum_list], rule map_cong)
      (simp_all add: l1_normalized_claimed assms)
  then show ?thesis by (simp add: spec_score_def claimed_score_def)
qed

lemma node_selection_readable:
  assumes "neighbors_list self \<noteq> []" and "\<forall>n\<in>set (neighbors_list self). readable (features self) n"
  shows "node_selection self node_addr draw =
     (let neighbors = neighbors_list self; ag = init_ages neighbors (ages self) in
      case np_random_choice neighbors (nat (num_selected_of (length neighbors)))
             (normalize_l1 (round_final_scores self)) draw of
        Inl e \<Rightarrow> (Inl e, self\<lparr>ages := ag\<rparr>)
      | Inr selected \<Rightarrow>
          (case update_ages neighbors selected ag of
             (Some e, ag2) \<Rightarrow> (Inl e, self\<lparr>ages := ag2\<rparr>)
           | (None, ag2) \<Rightarrow>
               (Inr (selected @ [node_addr]),
                self\<lparr>ages := ag2, selected_nodes := selected @ [node_addr]\<rparr>)))"
proof -
  from feature_loop_readable [OF assms(2), of "ages self" "[]" "replicate 7 []"]
  obtain av fa where "feature_loop (features self) (neighbors_list self) (ages self) [] (replicate 7 [])
      = (Inr (av, fa), init_ages (neighbors_list self) (ages self))" by blast
  then show ?thesis using assms(1)
    by (simp add: node_selection_def round_final_scores_def Let_def)
qed

text \<open>
  Claim C4, as the code has it. When the neighbour list is not empty and every neighbour is
  readable, the vector \<open>final_scores\<close> that \<open>node_selection\<close> computes through its matrix
  pipeline (append a column per neighbour, normalise the rows, weight them, sum the
  columns, multiply by the availabilities) is, neighbour by neighbour, the sum over the
  seven features of the weight times the normalised value of
  \<open>[loss, 1/(cpu_percent + 1e-6), data_size, bytes_received, bytes_sent, 1/(latency + 1e-6),
  age]\<close>, with a loss of \<open>-1\<close> replaced by \<open>100\<close> and not inverted, times the availability,
  where the normalised value is the entry divided by the L1 norm of its feature row,
  except that a row whose L1 norm is below ten times the machine epsilon is left as it is.
  The probabilities handed to the sampler are that vector, normalised the same way. When
  no feature row has so small a norm, the score is the one claim C4 states.
\<close>

theorem score_formula:
  assumes "neighbors_list self \<noteq> []"
    and "\<forall>n\<in>set (neighbors_list self). readable (features self) n"
  shows "round_final_scores self = map (spec_score self) [0..<length (neighbors_list self)] \<and>
     ((\<forall>k<7. 10 * float_eps \<le> (\<Sum>x\<leftarrow>feature_row self k. \<bar>x\<bar>)) \<longrightarrow>
        round_final_scores self = map (claimed_score self) [0..<length (neighbors_list self)]) \<and>
     node_selection self node_addr draw =
     (let neighbors = neighbors_list self; ag = init_ages neighbors (ages self) in
      case np_random_choice neighbors (nat (num_selected_of (length neighbors)))
             (normalize_l1 (map (spec_score self) [0..<length neighbors])) draw of
        Inl e \<Rightarrow> (Inl e, self\<lparr>ages := ag\<rparr>)
      | Inr selected \<Rightarrow>
          (case update_ages neighbors selected ag of
             (Some e, ag2) \<Rightarrow> (Inl e, self\<lparr>ages := ag2\<rparr>)
           | (None, ag2) \<Rightarrow>
               (Inr (selected @ [node_addr]),
                self\<lparr>ages := ag2, selected_nodes := selected @ [node_addr]\<rparr>)))"
proof -
  note r = round_final_scores_readable [OF assms(2)]
  have "round_final_scores self = map (claimed_score self) [0..<length (neighbors_list self)]"
    if "\<forall>k<7. 10 * float_eps \<le> (\<Sum>x\<leftarrow>feature_row self k. \<bar>x\<bar>)"
    unfolding r by (simp add: spec_score_claimed [OF that])
  with r node_selection_readable [OF assms, of node_addr draw] show ?thesis by simp
qed

lemma busy_readable:
  "readable (features busy_selector) ''a''" "readable (features busy_selector) ''b''"
  by (simp_all add: busy_selector_def readable_def)

lemma upt_7: "[0..<7] = [0, 1, 2, 3, 4, 5, 6]"
  by (simp add: upt_rec)

lemma upt_2: "[0..<2] = [0, Suc 0]"
  by (simp add: upt_rec)

lemma busy_spec_scores:
  "spec_score busy_selector 0 = 69 / 8" "spec_score busy_selector (Suc 0) = 67 / 16"
  by (simp_all add: spec_score_def upt_7 FEATURE_WEIGHTS_def l1_normalized_def feature_row_def
      busy_selector_def raw_features_def age_seen_def float_eps_def Let_def)

lemma busy_claimed_scores:
  "claimed_score busy_selector 0 = 69 / 8" "claimed_score busy_selector (Suc 0) = 67 / 16"
  by (simp_all add: claimed_score_def upt_7 FEATURE_WEIGHTS_def l1_claimed_def feature_row_def
      busy_selector_def raw_features_def age_seen_def Let_def)

lemma busy_rows:
  "\<forall>k<7. 10 * float_eps \<le> (\<Sum>x\<leftarrow>feature_row busy_selector k. \<bar>x\<bar>)"
proof -
  have "10 * float_eps \<le> (\<Sum>x\<leftarrow>feature_row busy_selector k. \<bar>x\<bar>)" if "k \<in> set [0..<7]" for k
    using that unfolding upt_7
    by (auto simp: feature_row_def busy_selector_def raw_features_def age_seen_def float_eps_def)
  then show ?thesis by simp
qed

theorem score_formula_witness:
  "neighbors_list busy_selector = [''a'', ''b''] \<and>
   readable (features busy_selector) ''a'' \<and> readable (features busy_selector) ''b'' \<and>
   round_final_scores busy_selector = [69 / 8, 67 / 16] \<and>
   round_final_scores busy_selector = [claimed_score busy_selector 0, claimed_score busy_selector 1]"
proof -
  have n: "neighbors_list busy_selector = [''a'', ''b'']" by (simp add: busy_selector_def)
  have h1: "neighbors_list busy_selector \<noteq> []" using n by simp
  have h2: "\<forall>n\<in>set (neighbors_list busy_selector). readable (features busy_selector) n"
    using n busy_readable by simp
  note sf = score_formula [OF h1 h2, of "''me''" first_positive]
  from sf have a: "round_final_scores busy_selector
      = map (spec_score busy_selector) [0..<length (neighbors_list busy_selector)]"
    by (rule conjunct1)
  from sf busy_rows have b: "round_final_scores busy_selector
      = map (claimed_score busy_selector) [0..<length (neighbors_list busy_selector)]"
    by blast
  from a have 1: "round_final_scores busy_selector = [69 / 8, 67 / 16]"
    by (simp add: n upt_2 busy_spec_scores)
  from b have 2: "round_final_scores busy_selector
      = [claimed_score busy_selector 0, claimed_score busy_selector 1]"
    by (simp add: n upt_2)
  from n busy_readable 1 2 show ?thesis by blast
qed

text \<open>
  Claim C4 as stated fails where a feature row is tiny: the two neighbours of
  \<open>tiny_selector\<close> get scores that differ by \<open>2\<^sup>-\<^sup>6\<^sup>0\<close> only, because the row of the bytes received
  is not normalised, while the score the claim states gives them \<open>67/8\<close> and \<open>69/8\<close>.
\<close>

theorem tiny_row_counterexample:
  "round_final_scores tiny_selector = [33 / 4 + 1 / 2 ^ 61, 33 / 4 + 3 / 2 ^ 61] \<and>
   claimed_score tiny_selector 0 = 67 / 8 \<and> claimed_score tiny_selector (Suc 0) = 69 / 8"
proof -
  have n: "neighbors_list tiny_selector = [''a'', ''b'']" by (simp add: tiny_selector_def)
  have "\<forall>n\<in>set (neighbors_list tiny_selector). readable (features tiny_selector) n"
    by (simp add: tiny_selector_def readable_def)
  from round_final_scores_readable [OF this]
  have r: "round_final_scores tiny_selector = [spec_score tiny_selector 0, spec_score tiny_selector (Suc 0)]"
    by (simp add: n upt_2)
  have s: "spec_score tiny_selector 0 = 33 / 4 + 1 / 2 ^ 61"
    "spec_score tiny_selector (Suc 0) = 33 / 4 + 3 / 2 ^ 61"
    by (simp_all add: spec_score_def upt_7 FEATURE_WEIGHTS_def l1_normalized_def feature_row_def
        tiny_selector_def raw_features_def age_seen_def float_eps_def Let_def)
  have c: "claimed_score tiny_selector 0 = 67 / 8" "claimed_score tiny_selector (Suc 0) = 69 / 8"
    by (simp_all add: claimed_score_def upt_7 FEATURE_WEIGHTS_def l1_claimed_def feature_row_def
        tiny_selector_def raw_features_def age_seen_def Let_def)
  from r s c show ?thesis by simp
qed

subsection \<open>An all-zero score vector\<close>

lemma np_random_choice_sum_zero:
  "sum_list p = 0 \<Longrightarrow> np_random_choice a sz p draw = Inl ValueError"
  by (simp add: np_random_choice_def choice_atol_def)

lemma zero_availability_zero_scores:
  assumes "\<forall>n\<in>set (neighbors_list self). readable (features self) n"
    and "\<forall>n\<in>set (neighbors_list self). availability (the (features self n)) = 0"
  shows "\<forall>x\<in>set (round_final_scores self). x = 0"
  unfolding round_final_scores_readable [OF assms(1)]
  using assms(2) by (auto simp: spec_score_def)

lemma all_zero_scores_raise:
  assumes "neighbors_list self \<noteq> []"
    and "\<forall>n\<in>set (neighbors_list self). readable (features self) n"
    and "\<forall>x\<in>set (round_final_scores self). x = 0"
  shows "node_selection self node_addr draw =
     (Inl ValueError, self\<lparr>ages := init_ages (neighbors_list self) (ages self)\<rparr>)"
proof -
  from assms(3) have "sum_list (normalize_l1 (round_final_scores self)) = 0"
    by (simp add: normalize_l1_zeros sum_list_zeros)
  then show ?thesis
    by (simp add: node_selection_readable [OF assms(1,2)] np_random_choice_sum_zero Let_def)
qed

lemma idle_facts:
  "neighbors_list idle_selector = [''a'', ''b'']"
  "readable (features idle_selector) ''a''" "readable (features idle_selector) ''b''"
  "ages idle_selector = Map.empty" "selected_nodes idle_selector = []"
  "round_final_scores idle_selector = [0, 0]"
proof -
  show n: "neighbors_list idle_selector = [''a'', ''b'']" by (simp add: idle_selector_def)
  show r: "readable (features idle_selector) ''a''" "readable (features idle_selector) ''b''"
    by (simp_all add: idle_selector_def idle_snapshot_def readable_def)
  show "ages idle_selector = Map.empty" "selected_nodes idle_selector = []"
    by (simp_all add: idle_selector_def)
  have "\<forall>n\<in>set (neighbors_list idle_selector). readable (features idle_selector) n"
    using n r by simp
  from round_final_scores_readable [OF this]
  show "round_final_scores idle_selector = [0, 0]"
    by (simp add: n upt_2 spec_score_def idle_selector_def idle_snapshot_def)
qed

text \<open>
  Claim C1, as the code has it. When every neighbour is readable and the final score vector
  of the round is all zeros, the L1 normalisation leaves the vector unchanged (no division
  by zero happens), but there is no fall-back to a uniform distribution: the probabilities
  handed to \<open>np.random.choice\<close> sum to 0, the call raises ValueError, and \<open>node_selection\<close>
  raises with it, whatever the sampler would have drawn. The only state change is that the
  neighbours seen for the first time have age 1; \<open>selected_nodes\<close> keeps its old value.
\<close>

theorem zero_scores_raise_ValueError:
  assumes "neighbors_list self \<noteq> []"
    and "\<forall>n\<in>set (neighbors_list self). readable (features self) n"
    and "\<forall>x\<in>set (round_final_scores self). x = 0"
  shows "node_selection self node_addr draw =
     (Inl ValueError, self\<lparr>ages := init_ages (neighbors_list self) (ages self)\<rparr>)"
  using assms by (rule all_zero_scores_raise)

theorem zero_scores_raise_ValueError_witness:
  "neighbors_list idle_selector = [''a'', ''b''] \<and>
   readable (features idle_selector) ''a'' \<and> readable (features idle_selector) ''b'' \<and>
   round_final_scores idle_selector = [0, 0] \<and>
   node_selection idle_selector ''me'' first_positive =
     (Inl ValueError, idle_selector\<lparr>ages := init_ages [''a'', ''b''] Map.empty\<rparr>)"
proof -
  note f = idle_facts
  have h1: "neighbors_list idle_selector \<noteq> []" using f(1) by simp
  have h2: "\<forall>n\<in>set (neighbors_list idle_selector). readable (features idle_selector) n"
    using f(1-3) by simp
  have h3: "\<forall>x\<in>set (round_final_scores idle_selector). x = 0" using f(6) by simp
  from zero_scores_raise_ValueError [OF h1 h2 h3, of "''me''" first_positive] f
  show ?thesis by simp
qed

text \<open>
  Claim C1 as stated fails: with two neighbours of availability 0 the call raises
  ValueError instead of returning a selection.
\<close>

theorem uniform_fallback_counterexample:
  "fst (node_selection idle_selector ''me'' first_positive) = Inl ValueError \<and>
   selected_nodes (snd (node_selection idle_selector ''me'' first_positive)) = []"
proof -
  note f = idle_facts
  have h1: "neighbors_list idle_selector \<noteq> []" using f(1) by simp
  have h2: "\<forall>n\<in>set (neighbors_list idle_selector). readable (features idle_selector) n"
    using f(1-3) by simp
  have h3: "\<forall>x\<in>set (round_final_scores idle_selector). x = 0" using f(6) by simp
  from all_zero_scores_raise [OF h1 h2 h3, of "''me''" first_positive] f(5)
  show ?thesis by simp
qed

subsection \<open>The second loop and the outcome of a round\<close>

lemma update_ages_None:
  "set ns \<subseteq> dom ag \<Longrightarrow> update_ages ns selected ag = (None, aged ns selected ag)"
proof (induction ns arbitrary: ag)
  case Nil
  then show ?case by (simp add: aged_def)
next
  case (Cons n rest)
  show ?case
  proof (cases "n \<in> set selected")
    case True
    have "aged rest selected ag = aged (n # rest) selected ag"
      using True by (auto simp: aged_def)
    with Cons True show ?thesis by simp
  next
    case False
    from Cons.prems obtain a where a: "ag n = Some a" by auto
    have d: "set rest \<subseteq> dom (ag(n \<mapsto> a + 2))" using Cons.prems by auto
    have e: "aged rest selected (ag(n \<mapsto> a + 2)) = aged (n # rest) selected ag"
      using False a by (rule_tac ext) (auto simp: aged_def)
    have "update_ages (n # rest) selected ag = update_ages rest selected (ag(n \<mapsto> a + 2))"
      using False a by simp
    also have "\<dots> = (None, aged rest selected (ag(n \<mapsto> a + 2)))"
      by (rule Cons.IH [OF d])
    finally show ?thesis by (simp only: e)
  qed
qed

lemma dom_init_ages: "set ns \<subseteq> dom (init_ages ns ag)"
  by (auto simp: init_ages_def)

lemma init_ages_seen: "n \<in> set ns \<Longrightarrow> init_ages ns ag n = Some (age_seen ag n)"
  by (auto simp: init_ages_def age_seen_def split: option.splits)

lemma init_ages_other: "n \<notin> set ns \<Longrightarrow> init_ages ns ag n = ag n"
  by (simp add: init_ages_def)



lemma node_selection_returns:
  assumes "neighbors_list self \<noteq> []"
    and "\<forall>n\<in>set (neighbors_list self). readable (features self) n"
    and "np_random_choice (neighbors_list self) (nat (num_selected_of (length (neighbors_list self))))
           (normalize_l1 (round_final_scores self)) draw = Inr selected"
  shows "node_selection self node_addr draw =
     (Inr (selected @ [node_addr]),
      self\<lparr>ages := aged (neighbors_list self) selected (init_ages (neighbors_list self) (ages self)),
           selected_nodes := selected @ [node_addr]\<rparr>)"
  unfolding node_selection_readable [OF assms(1,2)]
  by (simp add: Let_def assms(3) update_ages_None [OF dom_init_ages])

subsection \<open>The sampler\<close>


lemma np_random_choice_accepts:
  assumes "a \<noteq> []" and "length p = length a" and "\<forall>x\<in>set p. 0 < x" and "sum_list p = 1"
    and "sz \<le> length a"
  shows "np_random_choice a sz p draw = Inr (map (\<lambda>i. a ! i) (draw sz p))"
proof -
  have pos: "filter (\<lambda>x. 0 < x) p = p" using assms(3) by (simp add: filter_id_conv)
  have nn: "\<not> (\<exists>x\<in>set p. x < 0)" using assms(3) by (auto simp: not_less intro: less_imp_le)
  show ?thesis
    using assms(1,2,4,5) nn by (simp add: np_random_choice_def pos choice_atol_def)
qed




lemma first_positive_all:
  assumes "\<forall>x\<in>set p. 0 < x" and "sz \<le> length p"
  shows "first_positive sz p = [0..<sz]"
proof -
  have "filter (\<lambda>i. 0 < p ! i) [0..<length p] = [0..<length p]"
    using assms(1) by (simp add: filter_id_conv)
  then show ?thesis using assms(2) by (simp add: first_positive_def)
qed

subsection \<open>The size of the selection\<close>

lemma num_selected_bounds:
  assumes "0 < n"
  shows "MIN_AMOUNT_OF_SELECTED_NEIGHBORS \<le> num_selected_of n"
    and "num_selected_of n \<le> \<lceil>real n * MAX_PERCENT_SELECTABLE_NEIGHBORS\<rceil>"
    and "num_selected_of n \<le> int n"
proof -
  show "MIN_AMOUNT_OF_SELECTED_NEIGHBORS \<le> num_selected_of n"
    by (simp add: num_selected_of_def)
  have pos: "0 < real n * MAX_PERCENT_SELECTABLE_NEIGHBORS"
    using assms by (simp add: MAX_PERCENT_SELECTABLE_NEIGHBORS_def)
  then have "1 \<le> \<lceil>real n * MAX_PERCENT_SELECTABLE_NEIGHBORS\<rceil>" by linarith
  moreover have "\<lfloor>real n * MAX_PERCENT_SELECTABLE_NEIGHBORS\<rfloor> \<le> \<lceil>real n * MAX_PERCENT_SELECTABLE_NEIGHBORS\<rceil>"
    by (rule floor_le_ceiling)
  ultimately show "num_selected_of n \<le> \<lceil>real n * MAX_PERCENT_SELECTABLE_NEIGHBORS\<rceil>"
    by (simp add: num_selected_of_def MIN_AMOUNT_OF_SELECTED_NEIGHBORS_def)
  have "real n * MAX_PERCENT_SELECTABLE_NEIGHBORS \<le> real n"
    by (simp add: MAX_PERCENT_SELECTABLE_NEIGHBORS_def)
  then have "\<lfloor>real n * MAX_PERCENT_SELECTABLE_NEIGHBORS\<rfloor> \<le> int n" by linarith
  then show "num_selected_of n \<le> int n"
    using assms by (simp add: num_selected_of_def MIN_AMOUNT_OF_SELECTED_NEIGHBORS_def)
qed

lemma positive_scores_return:
  assumes "neighbors_list self \<noteq> []"
    and "\<forall>n\<in>set (neighbors_list self). readable (features self) n"
    and "\<forall>x\<in>set (round_final_scores self). 0 < x"
    and "10 * float_eps \<le> sum_list (round_final_scores self)"
  shows "node_selection self node_addr draw =
     (let selected = map (\<lambda>i. neighbors_list self ! i)
            (draw (nat (num_selected_of (length (neighbors_list self))))
               (normalize_l1 (round_final_scores self)))
      in (Inr (selected @ [node_addr]),
          self\<lparr>ages := aged (neighbors_list self) selected
                    (init_ages (neighbors_list self) (ages self)),
               selected_nodes := selected @ [node_addr]\<rparr>))"
proof -
  let ?ns = "neighbors_list self"
  let ?r = "round_final_scores self"
  let ?p = "normalize_l1 ?r"
  have len: "length ?p = length ?ns"
    by (simp add: round_final_scores_readable [OF assms(2)])
  note s = sum_list_normalize_l1 [OF assms(3,4)]
  have k: "nat (num_selected_of (length ?ns)) \<le> length ?ns"
    using num_selected_bounds(3) [of "length ?ns"] assms(1) by simp
  note c = np_random_choice_accepts [OF assms(1) len s(2) s(1) k, of draw]
  from node_selection_returns [OF assms(1,2) c] show ?thesis by (simp add: Let_def)
qed

lemma positive_scores_first_positive:
  assumes "neighbors_list self \<noteq> []"
    and "\<forall>n\<in>set (neighbors_list self). readable (features self) n"
    and "\<forall>x\<in>set (round_final_scores self). 0 < x"
    and "10 * float_eps \<le> sum_list (round_final_scores self)"
  shows "node_selection self node_addr first_positive =
     (let selected = take (nat (num_selected_of (length (neighbors_list self)))) (neighbors_list self)
      in (Inr (selected @ [node_addr]),
          self\<lparr>ages := aged (neighbors_list self) selected
                    (init_ages (neighbors_list self) (ages self)),
               selected_nodes := selected @ [node_addr]\<rparr>))"
proof -
  let ?ns = "neighbors_list self"
  let ?k = "nat (num_selected_of (length ?ns))"
  let ?p = "normalize_l1 (round_final_scores self)"
  have len: "length ?p = length ?ns"
    by (simp add: round_final_scores_readable [OF assms(2)])
  have k: "?k \<le> length ?ns"
    using num_selected_bounds(3) [of "length ?ns"] assms(1) by simp
  note s = sum_list_normalize_l1 [OF assms(3,4)]
  have "first_positive ?k ?p = [0..<?k]"
    using first_positive_all [OF s(2), of ?k] k len by simp
  moreover have "map (\<lambda>i. ?ns ! i) [0..<?k] = take ?k ?ns"
    using k by (intro nth_equalityI) simp_all
  ultimately show ?thesis
    using positive_scores_return [OF assms, of node_addr first_positive] by (simp add: Let_def)
qed


lemma busy_facts:
  "neighbors_list busy_selector = [''a'', ''b'']"
  "\<forall>n\<in>set (neighbors_list busy_selector). readable (features busy_selector) n"
  "ages busy_selector = Map.empty"
  "round_final_scores busy_selector = [69 / 8, 67 / 16]"
  "nat (num_selected_of (length (neighbors_list busy_selector))) = Suc 0"
proof -
  show n: "neighbors_list busy_selector = [''a'', ''b'']" by (simp add: busy_selector_def)
  show r: "\<forall>n\<in>set (neighbors_list busy_selector). readable (features busy_selector) n"
    using n busy_readable by simp
  show "ages busy_selector = Map.empty" by (simp add: busy_selector_def)
  from round_final_scores_readable [OF r]
  show "round_final_scores busy_selector = [69 / 8, 67 / 16]"
    by (simp add: n upt_2 busy_spec_scores)
  show "nat (num_selected_of (length (neighbors_list busy_selector))) = Suc 0"
    by (simp add: n num_selected_of_def MIN_AMOUNT_OF_SELECTED_NEIGHBORS_def
        MAX_PERCENT_SELECTABLE_NEIGHBORS_def)
qed

lemma busy_first_round:
  "node_selection busy_selector ''me'' first_positive =
     (Inr [''a'', ''me''],
      busy_selector\<lparr>ages := aged [''a'', ''b''] [''a''] (init_ages [''a'', ''b''] Map.empty),
        selected_nodes := [''a'', ''me'']\<rparr>)"
proof -
  note f = busy_facts
  have h1: "neighbors_list busy_selector \<noteq> []" using f(1) by simp
  have h3: "\<forall>x\<in>set (round_final_scores busy_selector). 0 < x" by (simp add: f(4))
  have h4: "10 * float_eps \<le> sum_list (round_final_scores busy_selector)"
    by (simp add: f(4) float_eps_def)
  from positive_scores_first_positive [OF h1 f(2) h3 h4, of "''me''"] show ?thesis
    unfolding f(5) by (simp add: f(1,3))
qed




subsection \<open>Ages over rounds\<close>

lemma ages_le_refl: "ages_le ag ag"
  by (simp add: ages_le_def)

lemma ages_le_trans: "ages_le ag1 ag2 \<Longrightarrow> ages_le ag2 ag3 \<Longrightarrow> ages_le ag1 ag3"
  unfolding ages_le_def by (meson order_trans)

lemma ages_le_init: "ages_le ag (init_ages ms ag)"
  by (auto simp: ages_le_def init_ages_def)

lemma ages_ok_init: "ages_ok ag \<Longrightarrow> ages_ok (init_ages ms ag)"
  by (auto simp: ages_ok_def init_ages_def split: if_splits)

lemma ages_le_aged: "ages_le ag (aged ns selected ag)"
  by (auto simp: ages_le_def aged_def)

lemma ages_ok_aged: "ages_ok ag \<Longrightarrow> ages_ok (aged ns selected ag)"
  by (fastforce simp: ages_ok_def aged_def split: if_splits)

lemma init_ages_cases:
  "init_ages ms ag n = ag n \<or> (n \<in> set ms \<and> ag n = None \<and> init_ages ms ag n = Some 1)"
  by (simp add: init_ages_def)

lemma aged_listed:
  "n \<in> set ns \<Longrightarrow> aged ns selected (init_ages ns ag) n =
     Some (age_seen ag n + (if n \<in> set selected then 0 else 2 * int (count_list ns n)))"
  by (simp add: aged_def init_ages_seen)

lemma aged_unlisted: "n \<notin> set ns \<Longrightarrow> aged ns selected (init_ages ns ag) n = ag n"
  by (simp add: aged_def init_ages_other)

lemma count_list_distinct: "distinct ns \<Longrightarrow> n \<in> set ns \<Longrightarrow> count_list ns n = 1"
  by (induction ns) auto

lemma feature_loop_ages:
  "\<exists>ms. set ms \<subseteq> set ns \<and> snd (feature_loop fs ns ag av fa) = init_ages ms ag"
proof (induction ns arbitrary: ag av fa)
  case Nil
  have "init_ages [] ag = ag" by (simp add: init_ages_def)
  then have "set [] \<subseteq> set ([] :: addr list) \<and> snd (feature_loop fs [] ag av fa) = init_ages [] ag"
    by simp
  then show ?case by (rule exI)
next
  case (Cons n rest)
  let ?ag1 = "case ag n of None \<Rightarrow> ag(n \<mapsto> 1) | Some x \<Rightarrow> ag"
  have one: "?ag1 = init_ages [n] ag"
    using init_ages_Cons [of "[]" ag n] by (simp add: init_ages_def)
  have more: "\<And>ms. init_ages ms ?ag1 = init_ages (n # ms) ag"
    by (rule init_ages_Cons)
  have stop: "\<exists>ms. set ms \<subseteq> set (n # rest) \<and> ?ag1 = init_ages ms ag"
    using one by (intro exI [of _ "[n]"]) simp
  show ?case
  proof (cases "fs n")
    case None
    then show ?thesis using stop by (simp add: Let_def)
  next
    case (Some f)
    show ?thesis
    proof (cases "?ag1 n")
      case None
      then show ?thesis using Some stop by (simp add: Let_def)
    next
      case (Some age)
      show ?thesis
      proof (cases "feature_list_of f age")
        case (Inl e)
        then show ?thesis using \<open>fs n = Some f\<close> Some stop by (simp add: Let_def)
      next
        case (Inr fl)
        from Cons.IH [of ?ag1 "av @ [availability f]" "map2 (\<lambda>row x. row @ [x]) fa fl"]
        obtain ms where ms: "set ms \<subseteq> set rest"
          "snd (feature_loop fs rest ?ag1 (av @ [availability f])
            (map2 (\<lambda>row x. row @ [x]) fa fl)) = init_ages ms ?ag1" by blast
        have "set (n # ms) \<subseteq> set (n # rest) \<and>
            snd (feature_loop fs (n # rest) ag av fa) = init_ages (n # ms) ag"
          using \<open>fs n = Some f\<close> Some Inr ms more by (auto simp: Let_def)
        then show ?thesis by (rule exI)
      qed
    qed
  qed
qed

lemma node_selection_ages:
  "(\<exists>e ms. fst (node_selection self node_addr draw) = Inl e \<and> set ms \<subseteq> set (neighbors_list self) \<and>
      ages (snd (node_selection self node_addr draw)) = init_ages ms (ages self)) \<or>
   (\<exists>selected. fst (node_selection self node_addr draw) = Inr (selected @ [node_addr]) \<and>
      ages (snd (node_selection self node_addr draw)) =
      aged (neighbors_list self) selected (init_ages (neighbors_list self) (ages self)))"
proof (cases "neighbors_list self = []")
  case True
  have "aged [] [] (init_ages [] (ages self)) = ages self"
    by (rule ext) (simp add: init_ages_def aged_def)
  then show ?thesis using True by (auto simp: node_selection_def intro: exI [of _ "[]"])
next
  case False
  let ?ns = "neighbors_list self"
  obtain r ag where fl: "feature_loop (features self) ?ns (ages self) [] (replicate 7 []) = (r, ag)"
    by (cases "feature_loop (features self) ?ns (ages self) [] (replicate 7 [])") auto
  from feature_loop_ages [of ?ns "features self" "ages self" "[]" "replicate 7 []"] fl
  obtain ms where ms: "set ms \<subseteq> set ?ns" "ag = init_ages ms (ages self)" by auto
  show ?thesis
  proof (cases r)
    case (Inl e)
    with fl False ms show ?thesis by (auto simp: node_selection_def Let_def)
  next
    case (Inr x)
    then obtain av fa where x: "r = Inr (av, fa)" by (cases x) auto
    from feature_loop_Inr [OF fl [unfolded x]]
    have ag: "ag = init_ages ?ns (ages self)" by simp
    have full: "set ?ns \<subseteq> set ?ns" by simp
    show ?thesis
    proof (cases "np_random_choice ?ns (nat (num_selected_of (length ?ns)))
        (normalize_l1 (final_scores_of (length ?ns) fa av)) draw")
      case (Inl e)
      then have "fst (node_selection self node_addr draw) = Inl e \<and> set ?ns \<subseteq> set ?ns \<and>
          ages (snd (node_selection self node_addr draw)) = init_ages ?ns (ages self)"
        using False fl x ag by (simp add: node_selection_def Let_def)
      then show ?thesis by blast
    next
      case (Inr selected)
      then have "fst (node_selection self node_addr draw) = Inr (selected @ [node_addr]) \<and>
          ages (snd (node_selection self node_addr draw)) =
            aged ?ns selected (init_ages ?ns (ages self))"
        using False fl x ag update_ages_None [OF dom_init_ages, of ?ns selected "ages self"]
        by (simp add: node_selection_def Let_def)
      then show ?thesis by blast
    qed
  qed
qed

lemma node_selection_ages_le: "ages_le (ages self) (ages (snd (node_selection self node_addr draw)))"
  using node_selection_ages [of self node_addr draw]
  by (auto intro: ages_le_init ages_le_trans [OF ages_le_init ages_le_aged])

lemma node_selection_ages_ok:
  "ages_ok (ages self) \<Longrightarrow> ages_ok (ages (snd (node_selection self node_addr draw)))"
  using node_selection_ages [of self node_addr draw]
  by (auto intro: ages_ok_init ages_ok_aged [OF ages_ok_init])

lemma ages_install [simp]: "ages (install r s) = ages s"
  by (simp add: install_def)

lemma run_rounds_ages_le: "ages_le (ages s) (ages (run_rounds node_addr rs s))"
proof (induction rs arbitrary: s)
  case Nil
  show ?case by (simp add: ages_le_refl)
next
  case (Cons r rs)
  have "ages_le (ages s) (ages (snd (node_selection (install r s) node_addr (round_draw r))))"
    using node_selection_ages_le [of "install r s"] by simp
  from ages_le_trans [OF this Cons.IH] show ?case by simp
qed

lemma run_rounds_ages_ok: "ages_ok (ages s) \<Longrightarrow> ages_ok (ages (run_rounds node_addr rs s))"
proof (induction rs arbitrary: s)
  case Nil
  then show ?case by simp
next
  case (Cons r rs)
  have "ages_ok (ages (snd (node_selection (install r s) node_addr (round_draw r))))"
    using node_selection_ages_ok [of "install r s"] Cons.prems by simp
  from Cons.IH [OF this] show ?case by simp
qed

text \<open>
  Claim C6, as the code has it. Start from any selector whose known ages are at least 1 (the
  empty age map of a new selector is one), run any sequence \<open>rs\<close> of calls of
  \<open>node_selection\<close>, with the neighbour list and the telemetry replaced before each call, and
  look at one more call, whatever its outcome \<open>res\<close>. Before and after that call every known
  age is at least 1; no age ever decreases and no neighbour is forgotten, over the whole
  history and over the call; the age of an address that is not in the neighbour list of the
  call is unchanged.

  When the call returns a selection, the age of each neighbour of the list afterwards is its
  age before the call (1 when the neighbour is seen for the first time, which is what
  \<open>age_seen\<close> reads), unchanged when the neighbour was selected, and increased by 2 for each
  occurrence of the neighbour in the list when it was not. So on a list that names no
  neighbour twice it is the prior age plus 2 when the neighbour was not selected and plus 0
  when it was.

  When the call raises, nobody is selected and no age is increased: each age is what it
  was, except that a neighbour of the list that the first loop reached for the first time
  has now age 1.
\<close>

theorem age_rule:
  assumes "ages_ok (ages s0)"
    and "s1 = install r (run_rounds node_addr rs s0)"
    and "node_selection s1 node_addr (round_draw r) = (res, s2)"
  shows "ages_ok (ages s1) \<and> ages_ok (ages s2) \<and>
     ages_le (ages s0) (ages s1) \<and> ages_le (ages s1) (ages s2) \<and>
     (\<forall>n. n \<notin> set (round_neighbors r) \<longrightarrow> ages s2 n = ages s1 n) \<and>
     (\<forall>result. res = Inr result \<longrightarrow>
        (\<forall>n\<in>set (round_neighbors r). ages s2 n =
           Some (age_seen (ages s1) n +
                 (if n \<in> set (butlast result) then 0
                  else 2 * int (count_list (round_neighbors r) n))))) \<and>
     (\<forall>result. res = Inr result \<and> distinct (round_neighbors r) \<longrightarrow>
        (\<forall>n\<in>set (round_neighbors r). ages s2 n =
           Some (age_seen (ages s1) n + (if n \<in> set (butlast result) then 0 else 2)))) \<and>
     (\<forall>e. res = Inl e \<longrightarrow>
        (\<forall>n. ages s2 n = ages s1 n \<or>
             (n \<in> set (round_neighbors r) \<and> ages s1 n = None \<and> ages s2 n = Some 1)))"
proof -
  let ?ns = "round_neighbors r"
  have ns: "neighbors_list s1 = ?ns" by (simp add: assms(2) install_def)
  have s2: "s2 = snd (node_selection s1 node_addr (round_draw r))" by (simp add: assms(3))
  have res: "res = fst (node_selection s1 node_addr (round_draw r))" by (simp add: assms(3))
  have ok1: "ages_ok (ages s1)"
    using run_rounds_ages_ok [OF assms(1)] by (simp add: assms(2))
  have ok2: "ages_ok (ages s2)"
    unfolding s2 by (rule node_selection_ages_ok [OF ok1])
  have le1: "ages_le (ages s0) (ages s1)"
    using run_rounds_ages_le [of s0 node_addr rs] by (simp add: assms(2))
  have le2: "ages_le (ages s1) (ages s2)"
    unfolding s2 by (rule node_selection_ages_le)
  from node_selection_ages [of s1 node_addr "round_draw r"]
  consider (raised) e ms where "res = Inl e" "set ms \<subseteq> set ?ns" "ages s2 = init_ages ms (ages s1)"
    | (returned) selected where "res = Inr (selected @ [node_addr])"
        "ages s2 = aged ?ns selected (init_ages ?ns (ages s1))"
    unfolding s2 res ns by blast
  then have rest:
     "(\<forall>n. n \<notin> set ?ns \<longrightarrow> ages s2 n = ages s1 n) \<and>
      (\<forall>result. res = Inr result \<longrightarrow>
        (\<forall>n\<in>set ?ns. ages s2 n =
           Some (age_seen (ages s1) n +
                 (if n \<in> set (butlast result) then 0 else 2 * int (count_list ?ns n))))) \<and>
      (\<forall>result. res = Inr result \<and> distinct ?ns \<longrightarrow>
        (\<forall>n\<in>set ?ns. ages s2 n =
           Some (age_seen (ages s1) n + (if n \<in> set (butlast result) then 0 else 2)))) \<and>
      (\<forall>e. res = Inl e \<longrightarrow>
        (\<forall>n. ages s2 n = ages s1 n \<or> (n \<in> set ?ns \<and> ages s1 n = None \<and> ages s2 n = Some 1)))"
  proof cases
    case raised
    have a: "ages s2 n = ages s1 n" if "n \<notin> set ?ns" for n
      using that raised(2) by (auto simp: raised(3) init_ages_def)
    have b: "ages s2 n = ages s1 n \<or> (n \<in> set ?ns \<and> ages s1 n = None \<and> ages s2 n = Some 1)" for n
      using init_ages_cases [of ms "ages s1" n] raised(2) by (auto simp: raised(3))
    from a b show ?thesis by (simp add: raised(1))
  next
    case returned
    have a: "ages s2 n = ages s1 n" if "n \<notin> set ?ns" for n
      using that by (simp add: returned(2) aged_unlisted)
    have b: "ages s2 n = Some (age_seen (ages s1) n +
        (if n \<in> set selected then 0 else 2 * int (count_list ?ns n)))" if "n \<in> set ?ns" for n
      using that by (simp only: returned(2) aged_listed)
    have c: "ages s2 n = Some (age_seen (ages s1) n + (if n \<in> set selected then 0 else 2))"
      if "n \<in> set ?ns" "distinct ?ns" for n
      using b [OF that(1)] count_list_distinct [OF that(2,1)] by simp
    from a b c show ?thesis by (simp add: returned(1))
  qed
  from ok1 ok2 le1 le2 rest show ?thesis by (intro conjI) blast+
qed

lemma busy_ages_after:
  "aged [''a'', ''b''] [''a''] (init_ages [''a'', ''b''] Map.empty) = [''a'' \<mapsto> 1, ''b'' \<mapsto> 3]"
  by (rule ext) (simp add: aged_def init_ages_def)

lemma busy_install: "install busy_round (run_rounds ''me'' [busy_round] busy_selector) = busy_selector_2"
proof -
  have i: "install busy_round busy_selector = busy_selector"
    by (simp add: install_def busy_round_def busy_selector_def)
  have d: "round_draw busy_round = first_positive" by (simp add: busy_round_def)
  show ?thesis
    by (simp add: i d busy_first_round busy_ages_after)
      (simp add: install_def busy_round_def busy_selector_def busy_selector_2_def)
qed

lemma busy_2_spec_scores:
  "spec_score busy_selector_2 0 = 63 / 8" "spec_score busy_selector_2 (Suc 0) = 73 / 16"
  by (simp_all add: spec_score_def upt_7 FEATURE_WEIGHTS_def l1_normalized_def feature_row_def
      busy_selector_2_def busy_selector_def raw_features_def age_seen_def float_eps_def Let_def)

lemma busy_second_round:
  "fst (node_selection busy_selector_2 ''me'' first_positive) = Inr [''a'', ''me'']"
proof -
  have n: "neighbors_list busy_selector_2 = [''a'', ''b'']"
    by (simp add: busy_selector_2_def busy_selector_def)
  have f: "features busy_selector_2 = features busy_selector" by (simp add: busy_selector_2_def)
  have k: "nat (num_selected_of (length (neighbors_list busy_selector_2))) = Suc 0"
    by (simp add: n num_selected_of_def MIN_AMOUNT_OF_SELECTED_NEIGHBORS_def
        MAX_PERCENT_SELECTABLE_NEIGHBORS_def)
  have h1: "neighbors_list busy_selector_2 \<noteq> []" using n by simp
  have r: "\<forall>n\<in>set (neighbors_list busy_selector_2). readable (features busy_selector_2) n"
    using n busy_readable by (simp add: f)
  have s: "round_final_scores busy_selector_2 = [63 / 8, 73 / 16]"
    using round_final_scores_readable [OF r] by (simp add: n upt_2 busy_2_spec_scores)
  have h3: "\<forall>x\<in>set (round_final_scores busy_selector_2). 0 < x" by (simp add: s)
  have h4: "10 * float_eps \<le> sum_list (round_final_scores busy_selector_2)"
    by (simp add: s float_eps_def)
  from positive_scores_first_positive [OF h1 r h3 h4, of "''me''"] show ?thesis
    unfolding k by (simp add: n)
qed

theorem age_rule_witness:
  "ages_ok (ages busy_selector) \<and>
   install busy_round (run_rounds ''me'' [busy_round] busy_selector) = busy_selector_2 \<and>
   round_neighbors busy_round = [''a'', ''b''] \<and>
   ages busy_selector_2 ''a'' = Some 1 \<and> ages busy_selector_2 ''b'' = Some 3 \<and>
   fst (node_selection busy_selector_2 ''me'' (round_draw busy_round)) = Inr [''a'', ''me''] \<and>
   ages (snd (node_selection busy_selector_2 ''me'' (round_draw busy_round))) ''a'' = Some 1 \<and>
   ages (snd (node_selection busy_selector_2 ''me'' (round_draw busy_round))) ''b'' = Some 5 \<and>
   ages (snd (node_selection busy_selector_2 ''me'' (round_draw busy_round))) ''c'' = None"
proof -
  have h1: "ages_ok (ages busy_selector)" by (simp add: busy_selector_def ages_ok_def)
  have h2: "busy_selector_2 = install busy_round (run_rounds ''me'' [busy_round] busy_selector)"
    by (simp only: busy_install)
  have d: "round_draw busy_round = first_positive" by (simp add: busy_round_def)
  have ns: "round_neighbors busy_round = [''a'', ''b'']" by (simp add: busy_round_def)
  have a: "ages busy_selector_2 ''a'' = Some 1" "ages busy_selector_2 ''b'' = Some 3"
    "ages busy_selector_2 ''c'' = None"
    by (simp_all add: busy_selector_2_def)
  obtain res s2 where h3: "node_selection busy_selector_2 ''me'' (round_draw busy_round) = (res, s2)"
    by (cases "node_selection busy_selector_2 ''me'' (round_draw busy_round)") auto
  with busy_second_round d have res: "res = Inr [''a'', ''me'']" by simp
  note r = age_rule [OF h1 h2 h3]
  from r have "\<forall>n. n \<notin> set (round_neighbors busy_round) \<longrightarrow> ages s2 n = ages busy_selector_2 n"
    by blast
  then have c: "ages s2 ''c'' = None" using a(3) by (simp add: ns)
  from r have "\<forall>result. res = Inr result \<and> distinct (round_neighbors busy_round) \<longrightarrow>
        (\<forall>n\<in>set (round_neighbors busy_round). ages s2 n =
           Some (age_seen (ages busy_selector_2) n + (if n \<in> set (butlast result) then 0 else 2)))"
    by blast
  then have "\<forall>n\<in>set [''a'', ''b'']. ages s2 n =
      Some (age_seen (ages busy_selector_2) n + (if n \<in> set (butlast [''a'', ''me'']) then 0 else 2))"
    using res by (simp add: ns)
  then have "ages s2 ''a'' = Some 1" "ages s2 ''b'' = Some 5"
    using a by (simp_all add: age_seen_def)
  with c h1 busy_install ns a h3 res show ?thesis by simp
qed

lemma upt_6: "[0..<6] = [0, Suc 0, Suc (Suc 0), Suc (Suc (Suc 0)), Suc (Suc (Suc (Suc 0))),
    Suc (Suc (Suc (Suc (Suc 0))))]"
  by (simp add: upt_rec)

lemma crowd_facts:
  "neighbors_list crowd_selector = [''b'', ''c'', ''d'', ''e'', ''a'', ''a'']"
  "\<forall>n\<in>set (neighbors_list crowd_selector). readable (features crowd_selector) n"
  "ages crowd_selector = Map.empty"
  "round_final_scores crowd_selector = [17 / 6, 17 / 6, 17 / 6, 17 / 6, 17 / 6, 17 / 6]"
  "nat (num_selected_of (length (neighbors_list crowd_selector))) = 4"
proof -
  show n: "neighbors_list crowd_selector = [''b'', ''c'', ''d'', ''e'', ''a'', ''a'']"
    by (simp add: crowd_selector_def)
  show r: "\<forall>n\<in>set (neighbors_list crowd_selector). readable (features crowd_selector) n"
    by (simp add: crowd_selector_def crowd_snapshot_def readable_def)
  show "ages crowd_selector = Map.empty" by (simp add: crowd_selector_def)
  have s: "spec_score crowd_selector 0 = 17 / 6"
    "spec_score crowd_selector (Suc 0) = 17 / 6"
    "spec_score crowd_selector (Suc (Suc 0)) = 17 / 6"
    "spec_score crowd_selector (Suc (Suc (Suc 0))) = 17 / 6"
    "spec_score crowd_selector (Suc (Suc (Suc (Suc 0)))) = 17 / 6"
    "spec_score crowd_selector (Suc (Suc (Suc (Suc (Suc 0))))) = 17 / 6"
    by (simp_all add: spec_score_def upt_7 FEATURE_WEIGHTS_def l1_normalized_def feature_row_def
        crowd_selector_def crowd_snapshot_def raw_features_def age_seen_def float_eps_def Let_def)
  from round_final_scores_readable [OF r]
  show "round_final_scores crowd_selector = [17 / 6, 17 / 6, 17 / 6, 17 / 6, 17 / 6, 17 / 6]"
    by (simp add: n upt_6 s)
  show "nat (num_selected_of (length (neighbors_list crowd_selector))) = 4"
    by (simp add: n num_selected_of_def MIN_AMOUNT_OF_SELECTED_NEIGHBORS_def
        MAX_PERCENT_SELECTABLE_NEIGHBORS_def)
qed

text \<open>
  Claim C6 as stated fails in two ways. In the neighbour list \<open>b, c, d, e, a, a\<close> the
  neighbour \<open>a\<close>, seen for the first time, is not selected in a round that selects
  \<open>b, c, d, e\<close>, and its age after the round is 5, not 1 + 2. And in the round of the two
  idle neighbours, which raises, \<open>a\<close> is seen for the first time and is not selected, and its
  age after the round is 1, not 1 + 2.
\<close>

theorem unselected_age_counterexample:
  "fst (node_selection crowd_selector ''me'' first_positive) = Inr [''b'', ''c'', ''d'', ''e'', ''me''] \<and>
   ages crowd_selector ''a'' = None \<and>
   ages (snd (node_selection crowd_selector ''me'' first_positive)) ''a'' = Some 5 \<and>
   fst (node_selection idle_selector ''me'' first_positive) = Inl ValueError \<and>
   ages idle_selector ''a'' = None \<and>
   ages (snd (node_selection idle_selector ''me'' first_positive)) ''a'' = Some 1"
proof -
  note f = crowd_facts
  have h1: "neighbors_list crowd_selector \<noteq> []" using f(1) by simp
  have h3: "\<forall>x\<in>set (round_final_scores crowd_selector). 0 < x" by (simp add: f(4))
  have h4: "10 * float_eps \<le> sum_list (round_final_scores crowd_selector)"
    by (simp add: f(4) float_eps_def)
  have t: "take 4 [''b'', ''c'', ''d'', ''e'', ''a'', ''a''] = [''b'', ''c'', ''d'', ''e'']"
    by (simp add: take_Cons')
  from positive_scores_first_positive [OF h1 f(2) h3 h4, of "''me''"]
  have c: "node_selection crowd_selector ''me'' first_positive =
     (Inr [''b'', ''c'', ''d'', ''e'', ''me''],
      crowd_selector\<lparr>ages := aged [''b'', ''c'', ''d'', ''e'', ''a'', ''a''] [''b'', ''c'', ''d'', ''e'']
          (init_ages [''b'', ''c'', ''d'', ''e'', ''a'', ''a''] Map.empty),
        selected_nodes := [''b'', ''c'', ''d'', ''e'', ''me'']\<rparr>)"
    unfolding f(5) by (simp add: f(1,3) t)
  have c5: "aged [''b'', ''c'', ''d'', ''e'', ''a'', ''a''] [''b'', ''c'', ''d'', ''e'']
      (init_ages [''b'', ''c'', ''d'', ''e'', ''a'', ''a''] Map.empty) ''a'' = Some 5"
    by (simp add: aged_def init_ages_def)
  note g = idle_facts
  have i1: "neighbors_list idle_selector \<noteq> []" using g(1) by simp
  have i2: "\<forall>n\<in>set (neighbors_list idle_selector). readable (features idle_selector) n"
    using g(1-3) by simp
  have i3: "\<forall>x\<in>set (round_final_scores idle_selector). x = 0" using g(6) by simp
  note i = all_zero_scores_raise [OF i1 i2 i3, of "''me''" first_positive]
  have i5: "init_ages (neighbors_list idle_selector) (ages idle_selector) ''a'' = Some 1"
    by (simp add: g(1,4) init_ages_def)
  have ia: "ages idle_selector ''a'' = None" by (simp add: g(4))
  have ca: "ages crowd_selector ''a'' = None" by (simp add: f(3))
  show ?thesis
    by (simp add: c c5 i i5 ca ia)
qed


section \<open>Properties of the aggregators\<close>

lemma length_available_aggregators: "length available_aggregators = 5"
  by (simp add: available_aggregators_def)

lemma random_choice_available:
  "random_choice g available_aggregators =
     (Inr (available_aggregators ! (g 0 mod 5)), \<lambda>i. g (Suc i))"
  by (simp add: random_choice_def length_available_aggregators)

lemma chosen_available: "available_aggregators ! (k mod 5) \<in> set available_aggregators"
  by (rule nth_mem) (simp add: length_available_aggregators)

lemma DynamicAggregator_on_returns:
  assumes "base_run_aggregation w models = None"
  shows "DynamicAggregator_run_aggregation_on (Inr self_round) w g models reactive_aggregator =
     (strategy_run_aggregation w (available_aggregators ! (g 0 mod 5)) models,
      [Logging_info ''[DynamicAggregator] Initializing Aggregation'' No_arg,
       Logging_info ''[DynamicAggregator] Chosen Aggregator: ''
         (Cls (available_aggregators ! (g 0 mod 5))),
       Log_text (if reactive_aggregator
                 then ''[ReactiveAggregator] Using DynamicAggregator: Chosen Aggregator''
                 else ''[DynamicAggregator] Chosen Aggregator'')
         (Name (cls_name (available_aggregators ! (g 0 mod 5)))) self_round],
      \<lambda>i. g (Suc i))"
    and "DynamicAggregator_run_aggregation_on (Inl e) w g models reactive_aggregator =
     (Inl e,
      [Logging_info ''[DynamicAggregator] Initializing Aggregation'' No_arg,
       Logging_info ''[DynamicAggregator] Chosen Aggregator: ''
         (Cls (available_aggregators ! (g 0 mod 5)))],
      \<lambda>i. g (Suc i))"
  by (simp_all add: DynamicAggregator_run_aggregation_on_def assms random_choice_available Let_def)

lemma DynamicAggregator_returns:
  assumes "base_run_aggregation w models = None"
  shows "DynamicAggregator_run_aggregation w g models reactive_aggregator =
     (strategy_run_aggregation w (available_aggregators ! (g 0 mod 5)) models,
      [Logging_info ''[DynamicAggregator] Initializing Aggregation'' No_arg,
       Logging_info ''[DynamicAggregator] Chosen Aggregator: ''
         (Cls (available_aggregators ! (g 0 mod 5))),
       Log_text (if reactive_aggregator
                 then ''[ReactiveAggregator] Using DynamicAggregator: Chosen Aggregator''
                 else ''[DynamicAggregator] Chosen Aggregator'')
         (Name (cls_name (available_aggregators ! (g 0 mod 5)))) (engine_round w)],
      \<lambda>i. g (Suc i))"
  unfolding DynamicAggregator_run_aggregation_def
  by (rule DynamicAggregator_on_returns(1) [OF assms])

lemma config_only_on_generator:
  assumes "base_run_aggregation w models = None"
  shows "snd (snd (DynamicAggregator_run_aggregation_on self_engine w g models reactive_aggregator))
      = (\<lambda>i. g (Suc i))"
    and "Logging_info ''[DynamicAggregator] Chosen Aggregator: ''
        (Cls (available_aggregators ! (g 0 mod 5)))
      \<in> set (fst (snd (DynamicAggregator_run_aggregation_on self_engine w g models
          reactive_aggregator)))"
    and "Log_text ''[ReactiveAggregator] Using DynamicAggregator: Chosen Aggregator'' arg step_no
      \<notin> set (fst (snd (DynamicAggregator_run_aggregation_on self_engine w g models False)))"
  by (cases self_engine; simp add: DynamicAggregator_on_returns [OF assms])+

lemma ReactiveAggregator_attack:
  assumes "base_run_aggregation w models = None"
    and "reputation_calculation w models = Inr (malicious_nodes, score)"
    and "malicious_nodes \<noteq> []"
  shows "ReactiveAggregator_run_aggregation w g models =
     (case DynamicAggregator_run_aggregation w g models True of
        (result, log2, g') \<Rightarrow>
          (result,
           [Logging_info ''[ReactiveAggregator] Initializing Aggregation'' No_arg,
            Logging_info ''[ReactiveAggregator] Detected Malicious Nodes: '' (Nodes malicious_nodes),
            Log_text ''[ReactiveAggregator] Malicious nodes'' (Nodes malicious_nodes) (engine_round w),
            Logging_info ''[ReactiveAggregator] Malicious Node - Using Dynamic Aggregator'' No_arg]
           @ log2, g'))"
  using assms by (simp add: ReactiveAggregator_run_aggregation_def Let_def)

lemma ReactiveAggregator_clean:
  assumes "base_run_aggregation w models = None"
    and "reputation_calculation w models = Inr ([], score)"
    and "participant w ''aggregator_args'' = Some aggregator_args"
    and "aggregator_args ''reactive_aggregator_default'' = Some default_aggregator"
  shows "ReactiveAggregator_run_aggregation w g models =
     (case ALGORITHM_MAP default_aggregator of
        Some cls \<Rightarrow>
          (case config_only_run_aggregation w g cls models of
             (result, log2, g') \<Rightarrow>
               (result,
                [Logging_info ''[ReactiveAggregator] Initializing Aggregation'' No_arg,
                 Logging_info ''[ReactiveAggregator] No Malicious Nodes Detected'' No_arg,
                 Log_text ''[ReactiveAggregator] Malicious nodes'' (Name ''None'') (engine_round w),
                 Logging_info ''[ReactiveAggregator] Normal Node - Using Aggregator ''
                   (Name default_aggregator)] @ log2, g'))
      | None \<Rightarrow>
          (strategy_run_aggregation w FedAvg models,
           [Logging_info ''[ReactiveAggregator] Initializing Aggregation'' No_arg,
            Logging_info ''[ReactiveAggregator] No Malicious Nodes Detected'' No_arg,
            Log_text ''[ReactiveAggregator] Malicious nodes'' (Name ''None'') (engine_round w),
            Logging_info ''[ReactiveAggregator] Normal Node - Using Aggregator ''
              (Name default_aggregator),
            Logging_error ''[ReactiveAggregator] Invalid default aggregator, falling back to FedAvg''
              (Name default_aggregator)], g))"
proof -
  have f: "ALGORITHM_MAP ''FedAvg'' = Some FedAvg" by (simp add: ALGORITHM_MAP_def)
  have c: "config_only_run_aggregation w g FedAvg models =
      (strategy_run_aggregation w FedAvg models, [], g)"
    by (simp add: config_only_run_aggregation_def)
  show ?thesis
    using assms f c
    by (cases "ALGORITHM_MAP default_aggregator")
      (simp_all add: ReactiveAggregator_run_aggregation_def Let_def)
qed

lemma dispatch_rounds_nth:
  assumes "\<And>m. base_run_aggregation w m = None"
  shows "length (dispatch_rounds w g ms) = length ms \<and>
     (\<forall>i<length ms. dispatch_rounds w g ms ! i =
        strategy_run_aggregation w (available_aggregators ! (g i mod 5)) (ms ! i))"
proof (induction ms arbitrary: g)
  case Nil
  show ?case by simp
next
  case (Cons m rest)
  have step: "dispatch_rounds w g (m # rest) =
      strategy_run_aggregation w (available_aggregators ! (g 0 mod 5)) m
        # dispatch_rounds w (\<lambda>i. g (Suc i)) rest"
    by (simp add: DynamicAggregator_returns [OF assms])
  from Cons.IH [of "\<lambda>i. g (Suc i)"] show ?case
    unfolding step by (auto simp: nth_Cons split: nat.splits)
qed

text \<open>
  Claim C2. When the base class returns and the reputation calculation returns its pair,
  the reactive aggregator routes by the malicious set alone. Non-empty: the whole call is
  the call of the dynamic aggregator on the same update set with \<open>reactive_aggregator = True\<close>,
  after the records of the detection; the record of the chosen class carries the reactive
  tag; and the participant's configuration plays no part, so the configured default is
  never looked up. Empty: when the default name is configured and is a key of
  \<open>ALGORITHM_MAP\<close>, the whole call is the run of the class under that key, built with the
  configuration only, on the update set, after the records of the clean round, and no
  record carries the reactive tag. For a class other than the dynamic aggregator the result
  is that class's and the generator is not used. For the dynamic aggregator as the default
  the result is that of its \<open>run_aggregation\<close> with \<open>reactive_aggregator = False\<close> on an
  instance without the engine argument, which makes its random choice, logs it and
  consumes one output of the generator.
\<close>

theorem reactive_routing:
  assumes "base_run_aggregation w models = None"
    and "reputation_calculation w models = Inr (malicious_nodes, score)"
  shows "(malicious_nodes \<noteq> [] \<longrightarrow>
       ReactiveAggregator_run_aggregation w g models =
         (case DynamicAggregator_run_aggregation w g models True of
            (result, log2, g') \<Rightarrow>
              (result,
               [Logging_info ''[ReactiveAggregator] Initializing Aggregation'' No_arg,
                Logging_info ''[ReactiveAggregator] Detected Malicious Nodes: ''
                  (Nodes malicious_nodes),
                Log_text ''[ReactiveAggregator] Malicious nodes'' (Nodes malicious_nodes)
                  (engine_round w),
                Logging_info ''[ReactiveAggregator] Malicious Node - Using Dynamic Aggregator''
                  No_arg] @ log2, g')) \<and>
       Log_text ''[ReactiveAggregator] Using DynamicAggregator: Chosen Aggregator''
           (Name (cls_name (available_aggregators ! (g 0 mod 5)))) (engine_round w)
         \<in> set (fst (snd (ReactiveAggregator_run_aggregation w g models))) \<and>
       (\<forall>cfg. ReactiveAggregator_run_aggregation (w\<lparr>participant := cfg\<rparr>) g models =
          ReactiveAggregator_run_aggregation w g models)) \<and>
     (malicious_nodes = [] \<longrightarrow>
       (\<forall>aggregator_args default_aggregator cls.
          participant w ''aggregator_args'' = Some aggregator_args \<and>
          aggregator_args ''reactive_aggregator_default'' = Some default_aggregator \<and>
          ALGORITHM_MAP default_aggregator = Some cls \<longrightarrow>
          ReactiveAggregator_run_aggregation w g models =
            (case config_only_run_aggregation w g cls models of
               (result, log2, g') \<Rightarrow>
                 (result,
                  [Logging_info ''[ReactiveAggregator] Initializing Aggregation'' No_arg,
                   Logging_info ''[ReactiveAggregator] No Malicious Nodes Detected'' No_arg,
                   Log_text ''[ReactiveAggregator] Malicious nodes'' (Name ''None'')
                     (engine_round w),
                   Logging_info ''[ReactiveAggregator] Normal Node - Using Aggregator ''
                     (Name default_aggregator)] @ log2, g')) \<and>
          (\<forall>arg step_no.
             Log_text ''[ReactiveAggregator] Using DynamicAggregator: Chosen Aggregator'' arg step_no
               \<notin> set (fst (snd (ReactiveAggregator_run_aggregation w g models)))) \<and>
          (cls \<noteq> DynamicAggregator \<longrightarrow>
             fst (ReactiveAggregator_run_aggregation w g models) =
               strategy_run_aggregation w cls models \<and>
             snd (snd (ReactiveAggregator_run_aggregation w g models)) = g) \<and>
          (cls = DynamicAggregator \<longrightarrow>
             fst (ReactiveAggregator_run_aggregation w g models) =
               fst (DynamicAggregator_run_aggregation_on (config_only_engine w) w g models False) \<and>
             Logging_info ''[DynamicAggregator] Chosen Aggregator: ''
                 (Cls (available_aggregators ! (g 0 mod 5)))
               \<in> set (fst (snd (ReactiveAggregator_run_aggregation w g models))) \<and>
             snd (snd (ReactiveAggregator_run_aggregation w g models)) = (\<lambda>i. g (Suc i)))))"
proof -
  have attack: "ReactiveAggregator_run_aggregation w g models =
         (case DynamicAggregator_run_aggregation w g models True of
            (result, log2, g') \<Rightarrow>
              (result,
               [Logging_info ''[ReactiveAggregator] Initializing Aggregation'' No_arg,
                Logging_info ''[ReactiveAggregator] Detected Malicious Nodes: ''
                  (Nodes malicious_nodes),
                Log_text ''[ReactiveAggregator] Malicious nodes'' (Nodes malicious_nodes)
                  (engine_round w),
                Logging_info ''[ReactiveAggregator] Malicious Node - Using Dynamic Aggregator''
                  No_arg] @ log2, g'))"
    if m: "malicious_nodes \<noteq> []"
    by (rule ReactiveAggregator_attack [OF assms m])
  have tagged: "Log_text ''[ReactiveAggregator] Using DynamicAggregator: Chosen Aggregator''
           (Name (cls_name (available_aggregators ! (g 0 mod 5)))) (engine_round w)
         \<in> set (fst (snd (ReactiveAggregator_run_aggregation w g models)))"
    if m: "malicious_nodes \<noteq> []"
    by (simp add: ReactiveAggregator_attack [OF assms m] DynamicAggregator_returns [OF assms(1)])
  have config: "ReactiveAggregator_run_aggregation (w\<lparr>participant := cfg\<rparr>) g models =
          ReactiveAggregator_run_aggregation w g models"
    if m: "malicious_nodes \<noteq> []" for cfg
  proof -
    have b: "base_run_aggregation (w\<lparr>participant := cfg\<rparr>) models = None"
      and r: "reputation_calculation (w\<lparr>participant := cfg\<rparr>) models = Inr (malicious_nodes, score)"
      using assms by simp_all
    show ?thesis
      by (simp add: ReactiveAggregator_attack [OF assms m] ReactiveAggregator_attack [OF b r m]
          DynamicAggregator_returns [OF assms(1)] DynamicAggregator_returns [OF b])
  qed
  have clean:
    "ReactiveAggregator_run_aggregation w g models =
       (case config_only_run_aggregation w g cls models of
          (result, log2, g') \<Rightarrow>
            (result,
             [Logging_info ''[ReactiveAggregator] Initializing Aggregation'' No_arg,
              Logging_info ''[ReactiveAggregator] No Malicious Nodes Detected'' No_arg,
              Log_text ''[ReactiveAggregator] Malicious nodes'' (Name ''None'')
                (engine_round w),
              Logging_info ''[ReactiveAggregator] Normal Node - Using Aggregator ''
                (Name default_aggregator)] @ log2, g')) \<and>
     (\<forall>arg step_no.
        Log_text ''[ReactiveAggregator] Using DynamicAggregator: Chosen Aggregator'' arg step_no
          \<notin> set (fst (snd (ReactiveAggregator_run_aggregation w g models)))) \<and>
     (cls \<noteq> DynamicAggregator \<longrightarrow>
        fst (ReactiveAggregator_run_aggregation w g models) =
          strategy_run_aggregation w cls models \<and>
        snd (snd (ReactiveAggregator_run_aggregation w g models)) = g) \<and>
     (cls = DynamicAggregator \<longrightarrow>
        fst (ReactiveAggregator_run_aggregation w g models) =
          fst (DynamicAggregator_run_aggregation_on (config_only_engine w) w g models False) \<and>
        Logging_info ''[DynamicAggregator] Chosen Aggregator: ''
            (Cls (available_aggregators ! (g 0 mod 5)))
          \<in> set (fst (snd (ReactiveAggregator_run_aggregation w g models))) \<and>
        snd (snd (ReactiveAggregator_run_aggregation w g models)) = (\<lambda>i. g (Suc i)))"
    if m: "malicious_nodes = []"
      and c: "participant w ''aggregator_args'' = Some aggregator_args \<and>
          aggregator_args ''reactive_aggregator_default'' = Some default_aggregator \<and>
          ALGORITHM_MAP default_aggregator = Some cls"
    for aggregator_args default_aggregator cls
  proof -
    from assms(2) m have r: "reputation_calculation w models = Inr ([], score)" by simp
    from c have c1: "participant w ''aggregator_args'' = Some aggregator_args"
      and c2: "aggregator_args ''reactive_aggregator_default'' = Some default_aggregator"
      and c3: "ALGORITHM_MAP default_aggregator = Some cls" by simp_all
    note whole = ReactiveAggregator_clean [OF assms(1) r c1 c2, of g, unfolded c3 option.case]
    note dyn = config_only_on_generator [OF assms(1)]
    show ?thesis
    proof (cases "cls = DynamicAggregator")
      case True
      show ?thesis
        using dyn by (simp add: whole) (simp add: True config_only_run_aggregation_def split_beta)
    next
      case False
      then show ?thesis
        by (simp add: whole) (simp add: config_only_run_aggregation_def)
    qed
  qed
  from attack tagged config clean show ?thesis by blast
qed

lemma probe_world_simps [simp]:
  "base_run_aggregation (probe_world reputation cfg) models = None"
  "reputation_calculation (probe_world reputation cfg) models = reputation"
  "engine_round (probe_world reputation cfg) = 0"
  "strategy_run_aggregation (probe_world reputation cfg) cls models = Inr (cls, models)"
  "config_only_engine (probe_world reputation cfg) = Inl AttributeError"
  "participant (probe_world reputation cfg) = cfg"
  by (simp_all add: probe_world_def)

lemma chosen_2: "available_aggregators ! 2 = Median"
  by (simp add: available_aggregators_def)

theorem reactive_routing_witness:
  "fst (ReactiveAggregator_run_aggregation (probe_world (Inr ([''b''], 0.3)) krum_config)
      (\<lambda>i. 7) two_updates) = Inr (Median, two_updates) \<and>
   ReactiveAggregator_run_aggregation (probe_world (Inr ([''b''], 0.3)) typo_config)
      (\<lambda>i. 7) two_updates =
   ReactiveAggregator_run_aggregation (probe_world (Inr ([''b''], 0.3)) krum_config)
      (\<lambda>i. 7) two_updates \<and>
   fst (ReactiveAggregator_run_aggregation (probe_world (Inr ([], 1)) krum_config)
      (\<lambda>i. 7) two_updates) = Inr (Krum, two_updates) \<and>
   snd (snd (ReactiveAggregator_run_aggregation (probe_world (Inr ([], 1)) krum_config)
      seeded_generator two_updates)) = seeded_generator \<and>
   fst (ReactiveAggregator_run_aggregation (probe_world (Inr ([], 1)) dynamic_config)
      seeded_generator two_updates) = Inl AttributeError \<and>
   Logging_info ''[DynamicAggregator] Chosen Aggregator: '' (Cls FedAvg)
     \<in> set (fst (snd (ReactiveAggregator_run_aggregation (probe_world (Inr ([], 1)) dynamic_config)
      seeded_generator two_updates))) \<and>
   snd (snd (ReactiveAggregator_run_aggregation (probe_world (Inr ([], 1)) dynamic_config)
      seeded_generator two_updates)) = (\<lambda>i. Suc i)"
proof -
  let ?attack = "probe_world (Inr ([''b''], 0.3)) krum_config :: ((addr \<times> real list) list, _) world"
  let ?clean = "probe_world (Inr ([], 1)) krum_config :: ((addr \<times> real list) list, _) world"
  let ?dyn = "probe_world (Inr ([], 1)) dynamic_config :: ((addr \<times> real list) list, _) world"
  have t: "?attack\<lparr>participant := typo_config\<rparr> = probe_world (Inr ([''b''], 0.3)) typo_config"
    by (simp add: probe_world_def)
  have k: "krum_config ''aggregator_args'' = Some [''reactive_aggregator_default'' \<mapsto> ''Krum'']"
    "[''reactive_aggregator_default'' \<mapsto> ''Krum''] ''reactive_aggregator_default'' = Some ''Krum''"
    "ALGORITHM_MAP ''Krum'' = Some Krum"
    by (simp_all add: krum_config_def ALGORITHM_MAP_def)
  have d: "dynamic_config ''aggregator_args'' =
      Some [''reactive_aggregator_default'' \<mapsto> ''DynamicAggregator'']"
    "[''reactive_aggregator_default'' \<mapsto> ''DynamicAggregator''] ''reactive_aggregator_default'' =
      Some ''DynamicAggregator''"
    "ALGORITHM_MAP ''DynamicAggregator'' = Some DynamicAggregator"
    by (simp_all add: dynamic_config_def ALGORITHM_MAP_def)
  have a: "fst (DynamicAggregator_run_aggregation ?attack (\<lambda>i. 7) two_updates True)
      = Inr (Median, two_updates)"
    by (simp add: DynamicAggregator_returns chosen_2)
  have r: "reputation_calculation ?attack two_updates = Inr ([''b''], 0.3)" by simp
  have b: "base_run_aggregation ?attack two_updates = None" by simp
  note routing = reactive_routing [OF b r, of "\<lambda>i. 7"]
  from routing a
  have 1: "fst (ReactiveAggregator_run_aggregation ?attack (\<lambda>i. 7) two_updates)
      = Inr (Median, two_updates)"
    by (simp add: split_beta)
  from routing have "\<forall>cfg. ReactiveAggregator_run_aggregation (?attack\<lparr>participant := cfg\<rparr>)
      (\<lambda>i. 7) two_updates = ReactiveAggregator_run_aggregation ?attack (\<lambda>i. 7) two_updates"
    by blast
  then have "ReactiveAggregator_run_aggregation (?attack\<lparr>participant := typo_config\<rparr>)
      (\<lambda>i. 7) two_updates = ReactiveAggregator_run_aggregation ?attack (\<lambda>i. 7) two_updates"
    by (rule spec)
  then have 2: "ReactiveAggregator_run_aggregation (probe_world (Inr ([''b''], 0.3)) typo_config)
      (\<lambda>i. 7) two_updates = ReactiveAggregator_run_aggregation ?attack (\<lambda>i. 7) two_updates"
    by (simp only: t)
  from reactive_routing [of ?clean two_updates "[]" 1 "\<lambda>i. 7"] k
  have 3: "fst (ReactiveAggregator_run_aggregation ?clean (\<lambda>i. 7) two_updates)
      = Inr (Krum, two_updates)"
    by (simp add: config_only_run_aggregation_def)
  from reactive_routing [of ?clean two_updates "[]" 1 seeded_generator] k
  have 4: "snd (snd (ReactiveAggregator_run_aggregation ?clean seeded_generator two_updates))
      = seeded_generator"
    by (simp add: config_only_run_aggregation_def)
  have f: "available_aggregators ! (seeded_generator 0 mod 5) = FedAvg"
    by (simp add: seeded_generator_def available_aggregators_def)
  from reactive_routing [of ?dyn two_updates "[]" 1 seeded_generator] d
  have 5: "fst (ReactiveAggregator_run_aggregation ?dyn seeded_generator two_updates) =
      Inl AttributeError"
    and 6: "Logging_info ''[DynamicAggregator] Chosen Aggregator: '' (Cls FedAvg)
      \<in> set (fst (snd (ReactiveAggregator_run_aggregation ?dyn seeded_generator two_updates)))"
    and 7: "snd (snd (ReactiveAggregator_run_aggregation ?dyn seeded_generator two_updates)) =
      (\<lambda>i. Suc i)"
    by (simp_all add: config_only_run_aggregation_def DynamicAggregator_on_returns f)
      (simp add: seeded_generator_def)
  from 1 2 3 4 5 6 7 show ?thesis by simp
qed

text \<open>
  Claim C3, as the code has it. The call of the reputation calculation is not guarded: when
  it raises, \<open>run_aggregation\<close> raises the same exception. No aggregator is run, the
  generator is not used, and nothing is logged after the opening record: there is no record
  of the failure, and no routing to the dynamic aggregator.
\<close>

theorem reputation_failure_propagates:
  assumes "base_run_aggregation w models = None"
    and "reputation_calculation w models = Inl e"
  shows "ReactiveAggregator_run_aggregation w g models =
     (Inl e, [Logging_info ''[ReactiveAggregator] Initializing Aggregation'' No_arg], g)"
  using assms by (simp add: ReactiveAggregator_run_aggregation_def)

theorem reputation_failure_propagates_witness:
  "ReactiveAggregator_run_aggregation
      (probe_world (Inl (Raised ''reputation service down'')) krum_config) seeded_generator
      two_updates =
     (Inl (Raised ''reputation service down''),
      [Logging_info ''[ReactiveAggregator] Initializing Aggregation'' No_arg], seeded_generator)"
  using reputation_failure_propagates
    [of "probe_world (Inl (Raised ''reputation service down'')) krum_config" two_updates
      "Raised ''reputation service down''" seeded_generator]
  by simp

text \<open>
  Claim C3 as stated fails: with a reputation calculation that raises, the call ends with
  that exception, while the dynamic aggregator, had it been called, would have run the
  median on the update set.
\<close>

theorem fail_closed_counterexample:
  "fst (ReactiveAggregator_run_aggregation
      (probe_world (Inl (Raised ''reputation service down'')) krum_config) (\<lambda>i. 7) two_updates)
     = Inl (Raised ''reputation service down'') \<and>
   fst (DynamicAggregator_run_aggregation
      (probe_world (Inl (Raised ''reputation service down'')) krum_config) (\<lambda>i. 7) two_updates True)
     = Inr (Median, two_updates)"
  by (simp add: ReactiveAggregator_run_aggregation_def DynamicAggregator_returns chosen_2)

text \<open>
  Claim C7. On a clean round whose configured default name is not a key of \<open>ALGORITHM_MAP\<close>,
  the call logs an error naming the invalid default and runs \<open>FedAvg\<close>, which is a key of the
  map, on the update set: the result of the call is the result of \<open>FedAvg\<close>, and the lookup
  miss raises nothing.
\<close>

theorem default_fallback:
  assumes "base_run_aggregation w models = None"
    and "reputation_calculation w models = Inr ([], score)"
    and "participant w ''aggregator_args'' = Some aggregator_args"
    and "aggregator_args ''reactive_aggregator_default'' = Some default_aggregator"
    and "ALGORITHM_MAP default_aggregator = None"
  shows "ReactiveAggregator_run_aggregation w g models =
     (strategy_run_aggregation w FedAvg models,
      [Logging_info ''[ReactiveAggregator] Initializing Aggregation'' No_arg,
       Logging_info ''[ReactiveAggregator] No Malicious Nodes Detected'' No_arg,
       Log_text ''[ReactiveAggregator] Malicious nodes'' (Name ''None'') (engine_round w),
       Logging_info ''[ReactiveAggregator] Normal Node - Using Aggregator ''
         (Name default_aggregator),
       Logging_error ''[ReactiveAggregator] Invalid default aggregator, falling back to FedAvg''
         (Name default_aggregator)], g) \<and>
     ALGORITHM_MAP ''FedAvg'' = Some FedAvg"
  by (simp add: ReactiveAggregator_clean [OF assms(1-4)] assms(5)) (simp add: ALGORITHM_MAP_def)

theorem default_fallback_witness:
  "ALGORITHM_MAP ''krum'' = None \<and>
   fst (ReactiveAggregator_run_aggregation (probe_world (Inr ([], 1)) typo_config)
      seeded_generator two_updates) = Inr (FedAvg, two_updates) \<and>
   Logging_error ''[ReactiveAggregator] Invalid default aggregator, falling back to FedAvg''
      (Name ''krum'')
     \<in> set (fst (snd (ReactiveAggregator_run_aggregation (probe_world (Inr ([], 1)) typo_config)
      seeded_generator two_updates)))"
proof -
  have k: "typo_config ''aggregator_args'' = Some [''reactive_aggregator_default'' \<mapsto> ''krum'']"
    "[''reactive_aggregator_default'' \<mapsto> ''krum''] ''reactive_aggregator_default'' = Some ''krum''"
    by (simp_all add: typo_config_def)
  have n: "ALGORITHM_MAP ''krum'' = None" by (simp add: ALGORITHM_MAP_def)
  from default_fallback [of "probe_world (Inr ([], 1)) typo_config" two_updates 1
      "[''reactive_aggregator_default'' \<mapsto> ''krum'']" "''krum''" seeded_generator] k n
  show ?thesis by simp
qed

text \<open>
  Claim C8. When malicious nodes are detected, the aggregator that runs is the one the
  generator picks from the five candidates, and it is run on the update set the reactive
  aggregator was called with: nothing is removed from it or changed in it on the way.
\<close>

theorem reactive_delegates_whole_update_set:
  assumes "base_run_aggregation w models = None"
    and "reputation_calculation w models = Inr (malicious_nodes, score)"
    and "malicious_nodes \<noteq> []"
  shows "fst (ReactiveAggregator_run_aggregation w g models) =
       strategy_run_aggregation w (available_aggregators ! (g 0 mod 5)) models \<and>
     available_aggregators ! (g 0 mod 5) \<in> set available_aggregators"
  by (simp add: ReactiveAggregator_attack [OF assms] DynamicAggregator_returns [OF assms(1)]
      chosen_available)

theorem reactive_delegates_whole_update_set_witness:
  "fst (ReactiveAggregator_run_aggregation (probe_world (Inr ([''a''], 0.1)) krum_config)
      (\<lambda>i. 7) two_updates) = Inr (Median, [(''a'', [2]), (''b'', [4])])"
  using reactive_delegates_whole_update_set
    [of "probe_world (Inr ([''a''], 0.1)) krum_config" two_updates "[''a'']" "0.1" "\<lambda>i. 7"]
  by (simp add: chosen_2) (simp add: two_updates_def)

text \<open>
  The dispatcher follows the generator. Over any sequence of invocations in one process, the
  dispatcher runs, at invocation \<open>i\<close>, the candidate at the position that the \<open>i\<close>-th output
  of the process-wide generator selects among the five positions: one of
  \<open>FedAvg, Krum, Median, TrimmedMean, Bulyan\<close>, each at exactly one position, with no memory of
  earlier choices. The dispatcher does not seed the generator, so the sequence of chosen
  classes is a function of the generator's state when the process starts, whatever the
  update sets are.
\<close>

lemma dispatch_follows_generator:
  assumes "\<And>m. base_run_aggregation w m = None"
  shows "length (dispatch_rounds w g ms) = length ms \<and>
     (\<forall>i<length ms.
        dispatch_rounds w g ms ! i =
          strategy_run_aggregation w (available_aggregators ! (g i mod 5)) (ms ! i) \<and>
        available_aggregators ! (g i mod 5) \<in> {FedAvg, Krum, Median, TrimmedMean, Bulyan}) \<and>
     distinct available_aggregators \<and> length available_aggregators = 5"
proof -
  have "available_aggregators ! (k mod 5) \<in> {FedAvg, Krum, Median, TrimmedMean, Bulyan}" for k
    using chosen_available [of k] by (simp add: available_aggregators_def)
  moreover have "distinct available_aggregators" by (simp add: available_aggregators_def)
  ultimately show ?thesis
    using dispatch_rounds_nth [OF assms, of g ms] by (simp add: length_available_aggregators)
qed

lemma dispatch_follows_generator_example:
  "dispatch_rounds (probe_world (Inr ([], 1)) krum_config) seeded_generator
      [two_updates, other_updates] = [Inr (FedAvg, two_updates), Inr (Krum, other_updates)]"
proof -
  let ?w = "probe_world (Inr ([], 1)) krum_config :: ((addr \<times> real list) list, _) world"
  let ?d = "dispatch_rounds ?w seeded_generator [two_updates, other_updates]"
  from dispatch_follows_generator [of ?w seeded_generator "[two_updates, other_updates]"]
  have l: "length ?d = 2"
    and n: "\<forall>i<2. ?d ! i = Inr (available_aggregators ! (seeded_generator i mod 5),
        [two_updates, other_updates] ! i)"
    by simp_all
  from n have "?d ! 0 = Inr (FedAvg, two_updates)" "?d ! 1 = Inr (Krum, other_updates)"
    by (simp_all add: seeded_generator_def available_aggregators_def)
  with l show ?thesis
    by (cases ?d; cases "tl ?d") (auto simp: nth_Cons')
qed

text \<open>
  Claim C9 does not hold of the code. The comment in \<open>run_aggregation\<close> says that reseeding
  is needed to remove the fixed seed, and the lines that reseed are commented out. So two
  processes whose generator starts in the state of the same fixed seed choose the same
  sequence of classes, here over three rounds, on different update sets and with different
  reputation results and configurations.
\<close>

theorem fixed_seed_dispatch_repeats:
  "map (map_sum id fst)
     (dispatch_rounds (probe_world (Inr ([], 1)) krum_config) seeded_generator
        [two_updates, two_updates, two_updates]) = [Inr FedAvg, Inr Krum, Inr Median] \<and>
   map (map_sum id fst)
     (dispatch_rounds (probe_world (Inr ([''d''], 0)) typo_config) seeded_generator
        [other_updates, two_updates, other_updates]) = [Inr FedAvg, Inr Krum, Inr Median]"
  by (simp add: DynamicAggregator_returns seeded_generator_def available_aggregators_def)


section \<open>Properties of the model\<close>

lemma process_metrics_loss: "self_loss (snd (process_metrics n phase y_pred y self)) = self_loss self"
  by (simp add: process_metrics_def Let_def)

lemma step_loss: "self_loss (snd (step n batch phase self)) = self_loss self"
proof -
  obtain x y where b: "batch = (x, y)" by (cases batch)
  obtain e s where p: "process_metrics n phase (forward n x) y self = (e, s)"
    by (cases "process_metrics n phase (forward n x) y self")
  from process_metrics_loss [of n phase "forward n x" y self] p
  have "self_loss s = self_loss self" by simp
  then show ?thesis by (cases e) (simp_all add: step_def b p Let_def)
qed

lemma training_step_loss:
  "self_loss (snd (training_step n (x, y) self)) = criterion n (forward n x) y"
  by (simp add: training_step_def step_def process_metrics_def Let_def)

lemma count_phase_loss: "self_loss (snd (count_phase phase self)) = self_loss self"
  by (simp add: count_phase_def split: option.splits)

lemma generate_confusion_matrix_loss:
  "self_loss (snd (generate_confusion_matrix phase self)) = self_loss self"
  by (simp add: generate_confusion_matrix_def split: option.splits)

lemma on_test_end_loss: "self_loss (snd (on_test_end self)) = self_loss self"
proof -
  obtain e s where c: "count_phase ''Test (Local)'' self = (e, s)"
    by (cases "count_phase ''Test (Local)'' self")
  from count_phase_loss [of "''Test (Local)''" self] c have "self_loss s = self_loss self" by simp
  then show ?thesis
    using count_phase_loss [of "''Test (Global)''" s]
    by (cases e) (simp_all add: on_test_end_def c)
qed

lemma on_test_epoch_end_loss: "self_loss (snd (on_test_epoch_end self)) = self_loss self"
proof -
  obtain e1 s1 where g1: "generate_confusion_matrix ''Test (Local)'' self = (e1, s1)"
    by (cases "generate_confusion_matrix ''Test (Local)'' self")
  obtain e2 s2 where g2: "generate_confusion_matrix ''Test (Global)'' s1 = (e2, s2)"
    by (cases "generate_confusion_matrix ''Test (Global)'' s1")
  from generate_confusion_matrix_loss [of "''Test (Local)''" self] g1
  have l1: "self_loss s1 = self_loss self" by simp
  from generate_confusion_matrix_loss [of "''Test (Global)''" s1] g2
  have l2: "self_loss s2 = self_loss s1" by simp
  show ?thesis
    by (cases e1; cases e2) (simp_all add: on_test_epoch_end_def log_metrics_end_def g1 g2 l1 l2)
qed

lemma perform_loss: "\<not> is_training_step c \<Longrightarrow> self_loss (perform n c self) = self_loss self"
proof (cases c)
  case (Test_step batch idx)
  then show ?thesis by (simp add: test_step_def step_loss)
qed (simp_all add: validation_step_def step_loss on_train_end_def on_validation_end_def
    count_phase_loss on_train_epoch_end_def on_validation_epoch_end_def log_metrics_end_def
    on_test_end_loss on_test_epoch_end_loss)

lemma run_calls_loss:
  "\<forall>c\<in>set cs. \<not> is_training_step c \<Longrightarrow> self_loss (run_calls n cs self) = self_loss self"
  by (induction cs arbitrary: self) (simp_all add: perform_loss)

lemma run_calls_append: "run_calls n (cs @ ds) self = run_calls n ds (run_calls n cs self)"
  by (induction cs arbitrary: self) simp_all

text \<open>
  Claim C10. A model built by \<open>__init__\<close> has \<open>loss = -1\<close>. No method other than
  \<open>training_step\<close> assigns the attribute: after any sequence of calls without a training
  step it is still \<open>-1\<close>, and the first training step sets it to the loss that the criterion
  computes on that batch. A telemetry snapshot that carries the loss of a model that has
  never trained is therefore one the selector treats as unavailable: the loss entry of its
  feature list is \<open>100\<close>.
\<close>

theorem untrained_model_reports_sentinel:
  assumes "\<forall>c\<in>set cs. \<not> is_training_step c"
    and "m = run_calls n cs (NebulaModel_init input_channels' num_classes' learning_rate')"
  shows "self_loss (NebulaModel_init input_channels' num_classes' learning_rate'
            :: ('c, 'y) nebula_model) = - 1 \<and>
     self_loss (m :: ('c, 'y) nebula_model) = - 1 \<and>
     self_loss (perform n (Training_step (x, y)) m) = criterion n (forward n x) y \<and>
     (\<forall>f age feature_list.
        loss f = self_loss m \<and> feature_list_of f age = Inr feature_list \<longrightarrow>
        feature_list ! 0 = 100) \<and>
     (\<forall>f age. loss f = self_loss m \<longrightarrow> raw_features f age ! 0 = 100)"
proof -
  have i: "self_loss (NebulaModel_init input_channels' num_classes' learning_rate'
      :: ('c, 'y) nebula_model) = - 1"
    by (simp add: NebulaModel_init_def)
  have l: "self_loss m = - 1"
    unfolding assms(2) by (simp add: run_calls_loss [OF assms(1)] NebulaModel_init_def)
  have t: "self_loss (perform n (Training_step (x, y)) m) = criterion n (forward n x) y"
    by (simp add: training_step_loss)
  have f: "feature_list ! 0 = 100"
    if "loss f = self_loss m \<and> feature_list_of f age = Inr feature_list"
    for f :: feature_snapshot and age feature_list
    using that l feature_list_of_Inr [of f age feature_list]
    by (simp add: raw_features_def)
  have r: "raw_features f age ! 0 = 100" if "loss f = self_loss m"
    for f :: feature_snapshot and age
    using that l by (simp add: raw_features_def)
  from i l t f r show ?thesis by blast
qed

theorem untrained_model_reports_sentinel_witness:
  "self_loss fresh_model = - 1 \<and>
   self_loss (run_calls toy_net [Validation_step (3, 5), On_validation_end, Test_step (1, 1) (Some 0),
      On_test_epoch_end] fresh_model) = - 1 \<and>
   self_loss (run_calls toy_net [Validation_step (3, 5), On_validation_end, Test_step (1, 1) (Some 0),
      On_test_epoch_end, Training_step (3, 5)] fresh_model) = 2 \<and>
   feature_list_of (idle_snapshot\<lparr>loss := self_loss fresh_model\<rparr>) 1 =
     Inr [100, 1000000 / 50000001, 100, 10, 10, 1000000 / 100001, 1]"
proof -
  let ?cs = "[Validation_step (3, 5), On_validation_end, Test_step (1, 1) (Some 0),
      On_test_epoch_end] :: (real, real) model_call list"
  have h1: "\<forall>c\<in>set ?cs. \<not> is_training_step c" by simp
  have c: "criterion toy_net (forward toy_net 3) 5 = 2" by (simp add: toy_net_def)
  from untrained_model_reports_sentinel [OF h1 refl, where n = toy_net
      and input_channels' = 1 and num_classes' = 10 and learning_rate' = "0.001"
      and x = 3 and y = 5]
  have 1: "self_loss fresh_model = - 1"
    and 2: "self_loss (run_calls toy_net ?cs fresh_model) = - 1"
    and 3: "self_loss (perform toy_net (Training_step (3, 5)) (run_calls toy_net ?cs fresh_model)) = 2"
    unfolding fresh_model_def [symmetric] c by blast+
  have 4: "run_calls toy_net (?cs @ [Training_step (3, 5)]) fresh_model
      = perform toy_net (Training_step (3, 5)) (run_calls toy_net ?cs fresh_model)"
    by (simp only: run_calls_append run_calls.simps)
  have 5: "feature_list_of (idle_snapshot\<lparr>loss := self_loss fresh_model\<rparr>) 1 =
     Inr [100, 1000000 / 50000001, 100, 10, 10, 1000000 / 100001, 1]"
    by (simp add: 1 feature_list_of_def idle_snapshot_def Let_def)
  from 1 2 3 4 5 show ?thesis by simp
qed

end
